theory Spec2Isabelle
  imports Main "HOL-Library.Word" "HOL-Library.Multiset"
begin

unbundle bit_operations_syntax

section \<open>Go values shared by the three packages\<close>

text \<open>
  Go's \<open>int\<close> (64 bits on the platforms the module targets) and \<open>time.Duration\<close>
  (an \<open>int64\<close> of nanoseconds) are 64-bit words: \<open>+\<close> wraps, \<open>sint\<close> reads the signed
  value, \<open>push_bit\<close> is \<open><<\<close> (a shift by 64 or more gives 0, as in Go).
\<close>

type_synonym go_int = "64 word"
type_synonym Duration = "64 word"

text \<open>
  An \<open>error\<close> value. Go compares errors by identity, so the two package-level variables
  \<open>consul.ErrServicesNotFound\<close> (consul.go, line 11) and \<open>discovery.ErrNotFound\<close>
  (package discovery, line 28) are two different values, although both carry the text
  "no service addresses found". \<open>Errorf\<close> is a value made by \<open>fmt.Errorf\<close> without
  \<open>%w\<close>, \<open>Wrapf\<close> one made with a prefix and \<open>%w\<close>; \<open>ContextCanceled\<close> and
  \<open>ContextDeadlineExceeded\<close> are what \<open>ctx.Err()\<close> returns once \<open>ctx.Done()\<close> is
  closed; \<open>BackendError\<close> is any error of the Consul client or of gRPC. A nil error is
  \<open>None\<close> of \<open>error option\<close>.
\<close>

datatype error =
    ErrServicesNotFound
  | ErrNotFound
  | Errorf string
  | Wrapf string error
  | ContextCanceled
  | ContextDeadlineExceeded
  | BackendError string

fun Error_text :: "error \<Rightarrow> string" where
  "Error_text ErrServicesNotFound = ''no service addresses found''"
| "Error_text ErrNotFound = ''no service addresses found''"
| "Error_text (Errorf s) = s"
| "Error_text (Wrapf s e) = s @ Error_text e"
| "Error_text ContextCanceled = ''context canceled''"
| "Error_text ContextDeadlineExceeded = ''context deadline exceeded''"
| "Error_text (BackendError s) = s"

text \<open>What a goroutine can panic with in this code.\<close>

datatype panic_value = PanicError error | NilPointerDereference | IndexOutOfRange

datatype 'a outcome = Panics panic_value | Returns 'a

text \<open>\<open>fmt.Sprintf("%d", i)\<close> and \<open>"%v"\<close> on an \<open>int\<close> or a \<open>bool\<close>.\<close>

function digits :: "nat \<Rightarrow> string" where
  "digits n =
     (if n < 10 then [''0123456789'' ! n]
      else digits (n div 10) @ [''0123456789'' ! (n mod 10)])"
  by pat_completeness auto
termination
  by (relation "measure id") auto

declare digits.simps [simp del]

definition Sprintf_d :: "go_int \<Rightarrow> string" where
  "Sprintf_d i =
     (if sint i < 0 then CHR ''-'' # digits (nat (- sint i)) else digits (nat (sint i)))"

definition Sprintf_bool :: "bool \<Rightarrow> string" where
  "Sprintf_bool b = (if b then ''true'' else ''false'')"

text \<open>\<open>strings.Join\<close>.\<close>

fun Join :: "string list \<Rightarrow> string \<Rightarrow> string" where
  "Join [] sep = []"
| "Join [x] sep = x"
| "Join (x # y # ys) sep = x @ sep @ Join (y # ys) sep"

definition Second :: Duration where
  "Second = 1000000000"

section \<open>Package consul: the backend adapter (consul.go)\<close>

definition SELF_NAME :: string where
  "SELF_NAME = ''consul''"

definition default_port :: go_int where
  "default_port = 8500"

definition default_host :: string where
  "default_host = ''localhost''"

record ConsulConfig =
  Host :: string
  Port :: go_int
  User :: string
  Pass :: string

record ServiceConfig =
  svc_Name :: string
  svc_Host :: string
  svc_Port :: go_int
  svc_Tags :: "string list"

definition DefaultConfig :: ConsulConfig where
  "DefaultConfig = \<lparr>Host = default_host, Port = default_port, User = [], Pass = []\<rparr>"

text \<open>
  The types of \<open>github.com/hashicorp/consul/api\<close> this package touches. Of
  \<open>api.Config\<close> the code reads and writes \<open>Address\<close> and \<open>HttpAuth\<close> only; the pointer
  \<open>HttpAuth\<close> is an option, \<open>None\<close> being nil.
\<close>

record HttpBasicAuth =
  Username :: string
  Password :: string

record api_Config =
  Address :: string
  HttpAuth :: "HttpBasicAuth option"

record AgentServiceCheck =
  CheckID :: string
  TTL :: string

record AgentServiceRegistration =
  reg_Address :: string
  reg_ID :: string
  reg_Name :: string
  reg_Port :: go_int
  reg_Tags :: "string list"
  reg_Check :: AgentServiceCheck

record AgentService =
  as_Address :: string
  as_Port :: go_int

record ServiceEntry =
  Service :: AgentService

definition HealthPassing :: string where
  "HealthPassing = ''passing''"

text \<open>\<open>url.URL\<close> as \<open>ServiceConnectGRPC\<close> fills it, and \<open>url.Values\<close>
  (\<open>map[string][]string\<close>).\<close>

type_synonym Values = "string \<rightharpoonup> string list"

record URL =
  Scheme :: string
  url_Host :: string
  Path :: string
  url_User :: "(string \<times> string) option"
  RawQuery :: Values

text \<open>
  Everything outside the repository, as parameters: the Consul client library (over
  client handles \<open>'c\<close>), gRPC (connections \<open>'g\<close>), \<open>time\<close> and the driving
  \<open>context.Context\<close>. Calls with an effect take and return the state \<open>'w\<close> of the world.
  \<^item> \<open>api_DefaultConfig\<close> is \<open>api.DefaultConfig()\<close>;
  \<^item> \<open>api_NewClient\<close> is \<open>api.NewClient(cfg)\<close>: \<open>Inl\<close> is its error, \<open>Inr (client, address)\<close>
    the client with \<open>cfg.Address\<close> as the call leaves it. The call gets a pointer and
    writes through it: it strips a scheme prefix (\<open>http://\<close>, \<open>https://\<close>, \<open>unix://\<close>)
    from the address. Of the two fields modelled it writes no other;
  \<^item> \<open>ServiceRegister\<close>, \<open>ServiceDeregister\<close>, \<open>UpdateTTL\<close> are the methods of
    \<open>client.Agent()\<close>, \<open>Health_Service\<close> is \<open>client.Health().Service\<close> without its
    query metadata;
  \<^item> \<open>grpc_NewClient\<close> is \<open>grpc.NewClient(u.String(), ...)\<close>, taking the URL before
    \<open>u.String()\<close> and \<open>querys.Encode()\<close> serialise it;
  \<^item> \<open>Duration_String\<close> is \<open>time.Duration.String\<close>;
  \<^item> \<open>ctx_Done\<close> is the non-blocking poll of \<open>ctx.Done()\<close>; \<open>select_wait d\<close> is the
    \<open>select\<close> between \<open>time.After(d)\<close> and \<open>ctx.Done()\<close>: \<open>None\<close> when the timer fires
    first, \<open>Some e\<close> when the context is done first and \<open>ctx.Err()\<close> is \<open>e\<close>;
  \<^item> \<open>Sleep\<close> is \<open>time.Sleep\<close>.
\<close>

record ('c, 'g, 'w) extern =
  api_DefaultConfig :: api_Config
  api_NewClient :: "api_Config \<Rightarrow> error + ('c \<times> string)"
  ServiceRegister :: "'c \<Rightarrow> AgentServiceRegistration \<Rightarrow> 'w \<Rightarrow> error option \<times> 'w"
  ServiceDeregister :: "'c \<Rightarrow> string \<Rightarrow> 'w \<Rightarrow> error option \<times> 'w"
  UpdateTTL :: "'c \<Rightarrow> string \<Rightarrow> string \<Rightarrow> string \<Rightarrow> 'w \<Rightarrow> error option \<times> 'w"
  Health_Service ::
    "'c \<Rightarrow> string \<Rightarrow> string \<Rightarrow> bool \<Rightarrow> 'w \<Rightarrow> (ServiceEntry list \<times> error option) \<times> 'w"
  grpc_NewClient :: "URL \<Rightarrow> 'w \<Rightarrow> ('g option \<times> error option) \<times> 'w"
  Duration_String :: "Duration \<Rightarrow> string"
  ctx_Done :: "'w \<Rightarrow> bool"
  select_wait :: "Duration \<Rightarrow> 'w \<Rightarrow> error option \<times> 'w"
  Sleep :: "Duration \<Rightarrow> 'w \<Rightarrow> 'w"

record 'c Registry =
  client :: 'c
  config :: api_Config

text \<open>
  \<open>NewRegistry\<close> (consul.go, lines 47-61): \<open>Inl\<close> is \<open>(nil, err)\<close>. The registry keeps
  the pointer \<open>cfg\<close> it passed to \<open>api.NewClient\<close>, so its configuration has the address
  as that call left it.
\<close>

definition NewRegistry ::
  "('c, 'g, 'w) extern \<Rightarrow> ConsulConfig option \<Rightarrow> error + 'c Registry" where
  "NewRegistry env config' =
     (let cfg = api_DefaultConfig env;
          cfg = (case config' of
                   None \<Rightarrow> cfg
                 | Some c \<Rightarrow>
                     cfg\<lparr>Address := Host c @ '':'' @ Sprintf_d (Port c),
                         HttpAuth := Some \<lparr>Username = User c, Password = Pass c\<rparr>\<rparr>)
      in case api_NewClient env cfg of
           Inl err \<Rightarrow> Inl err
         | Inr (client', address) \<Rightarrow>
             Inr \<lparr>client = client', config = cfg\<lparr>Address := address\<rparr>\<rparr>)"

text \<open>\<open>Register\<close> (lines 64-78).\<close>

definition Register ::
  "('c, 'g, 'w) extern \<Rightarrow> 'c Registry \<Rightarrow> string \<Rightarrow> string \<Rightarrow> string \<Rightarrow> go_int \<Rightarrow>
   string list \<Rightarrow> 'w \<Rightarrow> error option \<times> 'w" where
  "Register env r serviceName instanceID serviceHost servicePort serviceTags w =
     ServiceRegister env (client r)
       \<lparr>reg_Address = serviceHost, reg_ID = instanceID, reg_Name = serviceName,
        reg_Port = servicePort, reg_Tags = serviceTags,
        reg_Check = \<lparr>CheckID = instanceID, TTL = ''5s''\<rparr>\<rparr> w"

text \<open>\<open>Deregister\<close> (lines 81-83).\<close>

definition Deregister ::
  "('c, 'g, 'w) extern \<Rightarrow> 'c Registry \<Rightarrow> string \<Rightarrow> string \<Rightarrow> 'w \<Rightarrow> error option \<times> 'w" where
  "Deregister env r serviceName instanceID w = ServiceDeregister env (client r) instanceID w"

text \<open>\<open>ServiceAddresses\<close> (lines 86-98): \<open>Inl\<close> is \<open>(nil, err)\<close>.\<close>

definition ServiceAddresses ::
  "('c, 'g, 'w) extern \<Rightarrow> 'c Registry \<Rightarrow> string \<Rightarrow> 'w \<Rightarrow> (error + string list) \<times> 'w" where
  "ServiceAddresses env r serviceName w =
     (case Health_Service env (client r) serviceName [] True w of
        ((entries, Some err), w1) \<Rightarrow> (Inl err, w1)
      | ((entries, None), w1) \<Rightarrow>
          if length entries = 0 then (Inl ErrServicesNotFound, w1)
          else (Inr (map (\<lambda>e. as_Address (Service e) @ '':'' @ Sprintf_d (as_Port (Service e)))
                      entries), w1))"

text \<open>\<open>ReportHealthyState\<close> (lines 101-103).\<close>

definition ReportHealthyState ::
  "('c, 'g, 'w) extern \<Rightarrow> 'c Registry \<Rightarrow> string \<Rightarrow> string \<Rightarrow> string list \<Rightarrow> 'w \<Rightarrow>
   error option \<times> 'w" where
  "ReportHealthyState env r serviceName instanceID outputComment w =
     UpdateTTL env (client r) instanceID (Join outputComment ''|'') HealthPassing w"

text \<open>
  \<open>MakeRegistryAndRegisterService\<close> (lines 105-121). It returns the pair
  \<open>(*Registry, error)\<close> of a \<open>FuncExecutor\<close>; the context argument is not used.
\<close>

definition MakeRegistryAndRegisterService ::
  "('c, 'g, 'w) extern \<Rightarrow> string \<Rightarrow> ServiceConfig option \<Rightarrow> ConsulConfig option \<Rightarrow> 'w \<Rightarrow>
   ('c Registry option \<times> error option) \<times> 'w" where
  "MakeRegistryAndRegisterService env instanceID cfgService cfgConsul w =
     (let cfgConsul = (case cfgConsul of None \<Rightarrow> DefaultConfig | Some c \<Rightarrow> c) in
      case NewRegistry env (Some cfgConsul) of
        Inl err \<Rightarrow> ((None, Some err), w)
      | Inr registry \<Rightarrow>
          (case cfgService of
             None \<Rightarrow> ((None, Some (Errorf ''service configuration not defined'')), w)
           | Some s \<Rightarrow>
               (case Register env registry (svc_Name s) instanceID (svc_Host s) (svc_Port s)
                       (svc_Tags s) w of
                  (Some err, w1) \<Rightarrow> ((None, Some err), w1)
                | (None, w1) \<Rightarrow> ((Some registry, None), w1))))"

section \<open>Package consul: connection options (the option builder)\<close>

text \<open>The struct \<open>options\<close> (lines 18-31): every field a pointer, \<open>None\<close> being nil.\<close>

record options =
  limit :: "go_int option"
  tag :: "string option"
  healthy :: "string option"
  wait :: "string option"
  insecure :: "string option"
  near :: "string option"
  timeout :: "string option"
  maxbackoff :: "string option"
  token :: "string option"
  dc :: "string option"
  allowstale :: "bool option"
  requireconsistent :: "bool option"

text \<open>The zero value of \<open>var opt options\<close>.\<close>

definition zero_options :: options where
  "zero_options =
     \<lparr>limit = None, tag = None, healthy = None, wait = None, insecure = None, near = None,
      timeout = None, maxbackoff = None, token = None, dc = None, allowstale = None,
      requireconsistent = None\<rparr>"

text \<open>
  An \<open>OptionFunc\<close> is a closure \<open>func(option *options) error\<close>. The type \<open>options\<close> is
  not exported, so the closures a caller can pass are the ones the twelve constructors
  \<open>With...\<close> of the package return: one datatype constructor for each, holding the
  captured argument.
\<close>

datatype OptionFunc =
    WithTag string
  | WithHealthy bool
  | WithWait Duration
  | WithInsecure bool
  | WithNear string
  | WithLimit go_int
  | WithTimeout Duration
  | WithMaxBackoff Duration
  | WithToken string
  | WithDC string
  | WithAllowStale bool
  | WithRequireConsistent bool

definition OPT_NEAR_IP :: string where
  "OPT_NEAR_IP = ''_ip''"

text \<open>
  Calling the closure on \<open>option\<close>: the error it returns and the struct as it leaves it
  (lines 107-243). The first argument is \<open>time.Duration.String\<close>.
\<close>

fun call_option :: "(Duration \<Rightarrow> string) \<Rightarrow> OptionFunc \<Rightarrow> options \<Rightarrow> error option \<times> options" where
  "call_option ds (WithTag tag') option =
     (if tag' \<noteq> [] then (None, option\<lparr>tag := Some tag'\<rparr>) else (None, option))"
| "call_option ds (WithHealthy healthy') option =
     (let check = ''true'' in
      if healthy' then (None, option\<lparr>healthy := Some check\<rparr>) else (None, option))"
| "call_option ds (WithWait wait') option =
     (if sint wait' < 0 then (Some (Errorf ''wait time cannot be less than zero''), option)
      else if wait' \<noteq> 0 then (None, option\<lparr>wait := Some (ds wait')\<rparr>)
      else (None, option))"
| "call_option ds (WithInsecure insecure') option =
     (let allow = ''false'' in
      if \<not> insecure' then (None, option\<lparr>insecure := Some allow\<rparr>) else (None, option))"
| "call_option ds (WithNear near') option =
     (if (near' \<noteq> [] \<and> near' \<noteq> OPT_NEAR_IP) \<or> near' = [] then (None, option)
      else (None, option\<lparr>near := Some OPT_NEAR_IP\<rparr>))"
| "call_option ds (WithLimit limit') option =
     (if sint limit' < 0 then (Some (Errorf ''limit cannot be less than zero''), option)
      else if limit' \<noteq> 0 then (None, option\<lparr>limit := Some limit'\<rparr>)
      else (None, option))"
| "call_option ds (WithTimeout timeout') option =
     (if sint timeout' < 0 then (Some (Errorf ''timeout cannot be less than zero''), option)
      else if timeout' \<noteq> 0 then (None, option\<lparr>timeout := Some (ds timeout')\<rparr>)
      else (None, option))"
| "call_option ds (WithMaxBackoff maxbackoff') option =
     (if sint maxbackoff' < 0
      then (Some (Errorf ''maxbackoff cannot be less than zero''), option)
      else if maxbackoff' \<noteq> 0 then (None, option\<lparr>maxbackoff := Some (ds maxbackoff')\<rparr>)
      else (None, option))"
| "call_option ds (WithToken token') option =
     (if token' \<noteq> [] then (None, option\<lparr>token := Some token'\<rparr>) else (None, option))"
| "call_option ds (WithDC dc') option =
     (if dc' \<noteq> [] then (None, option\<lparr>dc := Some dc'\<rparr>) else (None, option))"
| "call_option ds (WithAllowStale stale) option = (None, option\<lparr>allowstale := Some stale\<rparr>)"
| "call_option ds (WithRequireConsistent require) option =
     (None, option\<lparr>requireconsistent := Some require\<rparr>)"

text \<open>The loop of \<open>targetQueryValues\<close> (lines 60-64): it stops at the first error.\<close>

fun call_options :: "(Duration \<Rightarrow> string) \<Rightarrow> OptionFunc list \<Rightarrow> options \<Rightarrow> error option \<times> options" where
  "call_options ds [] opt = (None, opt)"
| "call_options ds (option # opts) opt =
     (case call_option ds option opt of
        (Some err, opt1) \<Rightarrow> (Some err, opt1)
      | (None, opt1) \<Rightarrow> call_options ds opts opt1)"

text \<open>\<open>args.Set(key, value)\<close> under \<open>if p != nil\<close>.\<close>

definition Set_if :: "string \<Rightarrow> string option \<Rightarrow> Values \<Rightarrow> Values" where
  "Set_if key p args = (case p of None \<Rightarrow> args | Some v \<Rightarrow> args(key \<mapsto> [v]))"

text \<open>The serialisation of the snapshot (lines 65-101), in the order of the source.\<close>

definition query_of_options :: "options \<Rightarrow> Values" where
  "query_of_options opt =
     (Set_if ''require-consistent'' (map_option Sprintf_bool (requireconsistent opt))
     (Set_if ''allow-stale'' (map_option Sprintf_bool (allowstale opt))
     (Set_if ''dc'' (dc opt)
     (Set_if ''token'' (token opt)
     (Set_if ''max-backoff'' (maxbackoff opt)
     (Set_if ''timeout'' (timeout opt)
     (Set_if ''limit'' (map_option Sprintf_d (limit opt))
     (Set_if ''near'' (near opt)
     (Set_if ''insecure'' (insecure opt)
     (Set_if ''wait'' (wait opt)
     (Set_if ''healthy'' (healthy opt)
     (Set_if ''tag'' (tag opt) Map.empty))))))))))))"

text \<open>\<open>targetQueryValues\<close> (lines 58-104): \<open>Inl\<close> is \<open>(nil, err)\<close>.\<close>

definition targetQueryValues :: "(Duration \<Rightarrow> string) \<Rightarrow> OptionFunc list \<Rightarrow> error + Values" where
  "targetQueryValues ds opts =
     (case call_options ds opts zero_options of
        (Some err, opt) \<Rightarrow> Inl err
      | (None, opt) \<Rightarrow> Inr (query_of_options opt))"

text \<open>
  The arguments the setters accept: a duration or a limit that is not negative (the guards
  of lines 129, 171, 184 and 198); the other setters accept every argument.
\<close>

fun valid_argument :: "OptionFunc \<Rightarrow> bool" where
  "valid_argument (WithWait d) = (0 \<le> sint d)"
| "valid_argument (WithTimeout d) = (0 \<le> sint d)"
| "valid_argument (WithMaxBackoff d) = (0 \<le> sint d)"
| "valid_argument (WithLimit n) = (0 \<le> sint n)"
| "valid_argument _ = True"

text \<open>
  What one call of a setter writes: the field of \<open>options\<close> and the value stored in it. A
  setter writes at most one field, and none when it fails or its argument is the one it
  passes over (an empty string, a zero duration or limit, \<open>healthy = false\<close>,
  \<open>insecure = true\<close>, a \<open>near\<close> other than \<open>_ip\<close>).
\<close>

datatype assignment =
    Assign_limit go_int
  | Assign_tag string
  | Assign_healthy string
  | Assign_wait string
  | Assign_insecure string
  | Assign_near string
  | Assign_timeout string
  | Assign_maxbackoff string
  | Assign_token string
  | Assign_dc string
  | Assign_allowstale bool
  | Assign_requireconsistent bool

text \<open>The assignment in the closure of each setter, under the guards of the source.\<close>

fun assignment_of :: "(Duration \<Rightarrow> string) \<Rightarrow> OptionFunc \<Rightarrow> assignment option" where
  "assignment_of ds (WithTag tag') = (if tag' \<noteq> [] then Some (Assign_tag tag') else None)"
| "assignment_of ds (WithHealthy healthy') =
     (if healthy' then Some (Assign_healthy ''true'') else None)"
| "assignment_of ds (WithWait wait') =
     (if sint wait' < 0 then None
      else if wait' \<noteq> 0 then Some (Assign_wait (ds wait')) else None)"
| "assignment_of ds (WithInsecure insecure') =
     (if \<not> insecure' then Some (Assign_insecure ''false'') else None)"
| "assignment_of ds (WithNear near') =
     (if (near' \<noteq> [] \<and> near' \<noteq> OPT_NEAR_IP) \<or> near' = [] then None
      else Some (Assign_near OPT_NEAR_IP))"
| "assignment_of ds (WithLimit limit') =
     (if sint limit' < 0 then None
      else if limit' \<noteq> 0 then Some (Assign_limit limit') else None)"
| "assignment_of ds (WithTimeout timeout') =
     (if sint timeout' < 0 then None
      else if timeout' \<noteq> 0 then Some (Assign_timeout (ds timeout')) else None)"
| "assignment_of ds (WithMaxBackoff maxbackoff') =
     (if sint maxbackoff' < 0 then None
      else if maxbackoff' \<noteq> 0 then Some (Assign_maxbackoff (ds maxbackoff')) else None)"
| "assignment_of ds (WithToken token') =
     (if token' \<noteq> [] then Some (Assign_token token') else None)"
| "assignment_of ds (WithDC dc') = (if dc' \<noteq> [] then Some (Assign_dc dc') else None)"
| "assignment_of ds (WithAllowStale stale) = Some (Assign_allowstale stale)"
| "assignment_of ds (WithRequireConsistent require) = Some (Assign_requireconsistent require)"

text \<open>The assignment carried out, its field by name, and a snapshot holding it.\<close>

fun assign :: "assignment \<Rightarrow> options \<Rightarrow> options" where
  "assign (Assign_limit v) opt = opt\<lparr>limit := Some v\<rparr>"
| "assign (Assign_tag v) opt = opt\<lparr>tag := Some v\<rparr>"
| "assign (Assign_healthy v) opt = opt\<lparr>healthy := Some v\<rparr>"
| "assign (Assign_wait v) opt = opt\<lparr>wait := Some v\<rparr>"
| "assign (Assign_insecure v) opt = opt\<lparr>insecure := Some v\<rparr>"
| "assign (Assign_near v) opt = opt\<lparr>near := Some v\<rparr>"
| "assign (Assign_timeout v) opt = opt\<lparr>timeout := Some v\<rparr>"
| "assign (Assign_maxbackoff v) opt = opt\<lparr>maxbackoff := Some v\<rparr>"
| "assign (Assign_token v) opt = opt\<lparr>token := Some v\<rparr>"
| "assign (Assign_dc v) opt = opt\<lparr>dc := Some v\<rparr>"
| "assign (Assign_allowstale v) opt = opt\<lparr>allowstale := Some v\<rparr>"
| "assign (Assign_requireconsistent v) opt = opt\<lparr>requireconsistent := Some v\<rparr>"

fun field_name :: "assignment \<Rightarrow> string" where
  "field_name (Assign_limit _) = ''limit''"
| "field_name (Assign_tag _) = ''tag''"
| "field_name (Assign_healthy _) = ''healthy''"
| "field_name (Assign_wait _) = ''wait''"
| "field_name (Assign_insecure _) = ''insecure''"
| "field_name (Assign_near _) = ''near''"
| "field_name (Assign_timeout _) = ''timeout''"
| "field_name (Assign_maxbackoff _) = ''maxbackoff''"
| "field_name (Assign_token _) = ''token''"
| "field_name (Assign_dc _) = ''dc''"
| "field_name (Assign_allowstale _) = ''allowstale''"
| "field_name (Assign_requireconsistent _) = ''requireconsistent''"

fun field_holds :: "assignment \<Rightarrow> options \<Rightarrow> bool" where
  "field_holds (Assign_limit v) opt = (limit opt = Some v)"
| "field_holds (Assign_tag v) opt = (tag opt = Some v)"
| "field_holds (Assign_healthy v) opt = (healthy opt = Some v)"
| "field_holds (Assign_wait v) opt = (wait opt = Some v)"
| "field_holds (Assign_insecure v) opt = (insecure opt = Some v)"
| "field_holds (Assign_near v) opt = (near opt = Some v)"
| "field_holds (Assign_timeout v) opt = (timeout opt = Some v)"
| "field_holds (Assign_maxbackoff v) opt = (maxbackoff opt = Some v)"
| "field_holds (Assign_token v) opt = (token opt = Some v)"
| "field_holds (Assign_dc v) opt = (dc opt = Some v)"
| "field_holds (Assign_allowstale v) opt = (allowstale opt = Some v)"
| "field_holds (Assign_requireconsistent v) opt = (requireconsistent opt = Some v)"

text \<open>
  Any two setters of the list that write the same field write the same value into it.
\<close>

definition writes_agree :: "(Duration \<Rightarrow> string) \<Rightarrow> OptionFunc list \<Rightarrow> bool" where
  "writes_agree ds xs =
     (\<forall>a\<in>set xs. \<forall>b\<in>set xs.
        case (assignment_of ds a, assignment_of ds b) of
          (Some u, Some v) \<Rightarrow> field_name u = field_name v \<longrightarrow> u = v
        | _ \<Rightarrow> True)"

text \<open>
  \<open>ServiceConnectGRPC\<close> (lines 35-56). \<open>r.config.HttpAuth.Username\<close> dereferences the
  pointer \<open>HttpAuth\<close>: on nil the call panics, before anything else happens.
\<close>

definition ServiceConnectGRPC ::
  "('c, 'g, 'w) extern \<Rightarrow> 'c Registry \<Rightarrow> string \<Rightarrow> OptionFunc list \<Rightarrow> 'w \<Rightarrow>
   (('g option \<times> error option) \<times> 'w) outcome" where
  "ServiceConnectGRPC env r serviceName opts w =
     (case HttpAuth (config r) of
        None \<Rightarrow> Panics NilPointerDereference
      | Some auth \<Rightarrow>
          (let userpass =
                 (if Username auth \<noteq> [] \<and> Password auth \<noteq> []
                  then Some (Username auth, Password auth) else None)
           in case targetQueryValues (Duration_String env) opts of
                Inl err \<Rightarrow> Returns ((None, Some (Wrapf ''decode options: '' err)), w)
              | Inr querys \<Rightarrow>
                  Returns (grpc_NewClient env
                    \<lparr>Scheme = SELF_NAME, url_Host = Address (config r), Path = serviceName,
                     url_User = userpass, RawQuery = querys\<rparr> w)))"

section \<open>Package retryer: the retry driver and the health loop\<close>

record Feedback =
  Error :: "error option"
  Message :: string

text \<open>The delay of line 161, \<open>time.Second << uint(attempt)\<close>.\<close>

definition backoff_delay :: "go_int \<Rightarrow> Duration" where
  "backoff_delay attempt = push_bit (unat attempt) Second"

text \<open>
  The loop of the closure \<open>retry\<close> returns (lines 146-172). \<open>function\<close> is the wrapped
  \<open>FuncExecutor\<close> applied to the closure's arguments, a call with an effect on the world;
  \<open>select_wait\<close> and \<open>Duration_String\<close> are as in \<open>extern\<close>. The list \<open>feedback\<close> holds the
  events sent on the channel so far, in order; the receiver is taken to receive each one
  (a send on the unbuffered channel waits for it). The loop may run for ever: \<open>None\<close> is
  the run that never returns.
\<close>

partial_function (option) retry_loop ::
  "('w \<Rightarrow> ('r option \<times> error option) \<times> 'w) \<Rightarrow> (Duration \<Rightarrow> 'w \<Rightarrow> error option \<times> 'w) \<Rightarrow>
   (Duration \<Rightarrow> string) \<Rightarrow> go_int \<Rightarrow> go_int \<Rightarrow> Feedback list \<Rightarrow> 'w \<Rightarrow>
   (('r option \<times> error option) \<times> Feedback list \<times> 'w) option"
where
  "retry_loop function select_wait' Duration_String' max' attempt feedback w =
     (case function w of
        ((reg, None), w1) \<Rightarrow>
          Some ((reg, None),
                feedback @ [\<lparr>Error = None,
                  Message = ''retry attempt '' @ Sprintf_d attempt @ '' successful''\<rparr>], w1)
      | ((reg, Some err), w1) \<Rightarrow>
          if attempt = max' \<and> max' \<noteq> 0
          then Some ((reg, Some err),
                 feedback @ [\<lparr>Error = None, Message = ''all attempts used''\<rparr>], w1)
          else
            let delay = backoff_delay attempt;
                feedback1 = feedback @ [\<lparr>Error = Some err,
                  Message = ''retry attempt '' @ Sprintf_d attempt @ '' failed repeat after ''
                            @ Duration_String' delay\<rparr>]
            in (case select_wait' delay w1 of
                  (Some ctx_err, w2) \<Rightarrow> Some ((None, Some ctx_err), feedback1, w2)
                | (None, w2) \<Rightarrow>
                    retry_loop function select_wait' Duration_String' max' (attempt + 1)
                      feedback1 w2))"

text \<open>\<open>retry\<close> (lines 140-174): \<open>max\<close> is the first of \<open>maxAttempts\<close>, or 0.\<close>

definition retry ::
  "('w \<Rightarrow> ('r option \<times> error option) \<times> 'w) \<Rightarrow> (Duration \<Rightarrow> 'w \<Rightarrow> error option \<times> 'w) \<Rightarrow>
   (Duration \<Rightarrow> string) \<Rightarrow> go_int list \<Rightarrow> 'w \<Rightarrow>
   (('r option \<times> error option) \<times> Feedback list \<times> 'w) option" where
  "retry function select_wait' Duration_String' maxAttempts w =
     (let max' = (if length maxAttempts > 0 then hd maxAttempts else 0)
      in retry_loop function select_wait' Duration_String' max' 1 [] w)"

text \<open>
  The state of the channel \<open>feedback\<close> that the health loop depends on: whether it has
  been closed. \<open>make(chan Feedback)\<close> gives an open channel.
\<close>

record chan =
  closed :: bool

definition make_chan :: chan where
  "make_chan = \<lparr>closed = False\<rparr>"

text \<open>
  The retry task of one recovery (lines 195-202): \<open>retry\<close> around
  \<open>consul.MakeRegistryAndRegisterService\<close>, called with the registry configuration nil.
  The result is what the goroutine stores in \<open>newreg\<close> and \<open>rerr\<close>, with the events it
  sent on \<open>feedback\<close>.
\<close>

definition retryFunc ::
  "('c, 'g, 'w) extern \<Rightarrow> string \<Rightarrow> ServiceConfig option \<Rightarrow> go_int \<Rightarrow> 'w \<Rightarrow>
   (('c Registry option \<times> error option) \<times> Feedback list \<times> 'w) option" where
  "retryFunc env instanceID serviceCfg max' w =
     retry (MakeRegistryAndRegisterService env instanceID serviceCfg None)
       (select_wait env) (Duration_String env) [max'] w"

text \<open>How a call of \<open>CheckHealthAndReconnect\<close> ends, when it does.\<close>

datatype ending = Returned | Panicked panic_value | Blocked

text \<open>
  The loop of \<open>CheckHealthAndReconnect\<close> (lines 179-222). \<open>reg\<close> is the interface value
  (nil, or a pointer to a registry), \<open>maxAttempts\<close> the variadic slice (\<open>None\<close> when the
  call passes none), \<open>logFeedback\<close> the events sent to the caller's channel so far, whose
  receiver is taken to receive each one.

  \<open>for f := range feedback\<close> relays what the retry task sends and ends only when the
  channel is closed; on an open channel it waits for ever once the task has returned:
  that is \<open>Blocked\<close>. A retry task that never returns keeps the loop relaying for ever
  (\<open>None\<close>). The only \<open>close(feedback)\<close> of the source is the deferred one, which runs
  when the function returns.
\<close>

partial_function (option) CheckHealthAndReconnect_loop ::
  "('c, 'g, 'w) extern \<Rightarrow> string \<Rightarrow> 'c Registry option \<Rightarrow> ServiceConfig option \<Rightarrow>
   go_int list option \<Rightarrow> chan \<Rightarrow> Feedback list \<Rightarrow> 'w \<Rightarrow> (ending \<times> Feedback list \<times> 'w) option"
where
  "CheckHealthAndReconnect_loop env instanceID reg serviceCfg maxAttempts feedback logFeedback w =
     (if ctx_Done env w then Some (Returned, logFeedback, w)
      else
        case reg of
          None \<Rightarrow> Some (Panicked NilPointerDereference, logFeedback, w)
        | Some r \<Rightarrow>
            (case ReportHealthyState env r [] instanceID [] w of
               (None, w1) \<Rightarrow>
                 CheckHealthAndReconnect_loop env instanceID reg serviceCfg maxAttempts feedback
                   logFeedback (Sleep env Second w1)
             | (Some err, w1) \<Rightarrow>
                 let logFeedback1 = logFeedback @
                       [\<lparr>Error = Some err, Message = ''trying new make registry and register''\<rparr>]
                 in
                 if maxAttempts = Some [] then Some (Panicked IndexOutOfRange, logFeedback1, w1)
                 else
                   let max' = (case maxAttempts of None \<Rightarrow> 0 | Some ms \<Rightarrow> hd ms) in
                   (case retryFunc env instanceID serviceCfg max' w1 of
                      None \<Rightarrow> None
                    | Some ((newreg, rerr), sent, w2) \<Rightarrow>
                        let logFeedback2 = logFeedback1 @ sent in
                        if \<not> closed feedback then Some (Blocked, logFeedback2, w2)
                        else
                          (case rerr of
                             None \<Rightarrow>
                               CheckHealthAndReconnect_loop env instanceID newreg serviceCfg
                                 maxAttempts feedback logFeedback2 (Sleep env Second w2)
                           | Some rerr' \<Rightarrow>
                               Some (Panicked (PanicError err), logFeedback2, w2)))))"

text \<open>\<open>CheckHealthAndReconnect\<close> (lines 176-223).\<close>

definition CheckHealthAndReconnect ::
  "('c, 'g, 'w) extern \<Rightarrow> string \<Rightarrow> 'c Registry option \<Rightarrow> ServiceConfig option \<Rightarrow>
   go_int list option \<Rightarrow> Feedback list \<Rightarrow> 'w \<Rightarrow> (ending \<times> Feedback list \<times> 'w) option" where
  "CheckHealthAndReconnect env instanceID reg serviceCfg maxAttempts logFeedback w =
     (let feedback = make_chan
      in CheckHealthAndReconnect_loop env instanceID reg serviceCfg maxAttempts feedback
           logFeedback w)"

section \<open>Test doubles for the closed examples\<close>

text \<open>
  Stand-ins for the world in the examples below. The world is a counter of the calls made
  to the backend. \<open>whole_seconds\<close> stands in for \<open>time.Duration.String\<close>.
\<close>

definition whole_seconds :: "Duration \<Rightarrow> string" where
  "whole_seconds d = Sprintf_d (d div Second) @ ''s''"

definition always_fails :: "nat \<Rightarrow> (nat option \<times> error option) \<times> nat" where
  "always_fails w = ((None, Some (BackendError (''refused '' @ digits w))), Suc w)"

definition fails_twice :: "nat \<Rightarrow> (nat option \<times> error option) \<times> nat" where
  "fails_twice w =
     (if w < 2 then ((None, Some (BackendError (''refused '' @ digits w))), Suc w)
      else ((Some w, None), Suc w))"

definition timer_fires :: "Duration \<Rightarrow> nat \<Rightarrow> error option \<times> nat" where
  "timer_fires d w = (None, w)"

definition ctx_cancelled :: "Duration \<Rightarrow> nat \<Rightarrow> error option \<times> nat" where
  "ctx_cancelled d w = (Some ContextCanceled, w)"

text \<open>
  A backend whose liveness push always fails and whose registration succeeds or not, as
  \<open>register_ok\<close> says; the context is never done.
\<close>

definition test_env :: "bool \<Rightarrow> (unit, unit, nat) extern" where
  "test_env register_ok =
     \<lparr>api_DefaultConfig = \<lparr>Address = ''127.0.0.1:8500'', HttpAuth = None\<rparr>,
      api_NewClient = (\<lambda>cfg. Inr ((), Address cfg)),
      ServiceRegister = (\<lambda>c registration w.
        (if register_ok then None else Some (BackendError ''register refused''), Suc w)),
      ServiceDeregister = (\<lambda>c instanceID w. (None, Suc w)),
      UpdateTTL = (\<lambda>c checkID output status w. (Some (BackendError ''update ttl refused''), Suc w)),
      Health_Service = (\<lambda>c service tag' passingOnly w. (([], None), Suc w)),
      grpc_NewClient = (\<lambda>u w. ((Some (), None), Suc w)),
      Duration_String = whole_seconds,
      ctx_Done = (\<lambda>w. False),
      select_wait = timer_fires,
      Sleep = (\<lambda>d w. w)\<rparr>"

definition test_service :: ServiceConfig where
  "test_service = \<lparr>svc_Name = ''orders'', svc_Host = ''10.0.0.7'', svc_Port = 9000, svc_Tags = []\<rparr>"

section \<open>The retry driver\<close>

text \<open>One pass through the body of the loop, for each of its four ways out.\<close>

lemma retry_loop_success:
  assumes "f w = ((reg, None), w1)"
  shows "retry_loop f sw ds max' attempt feedback w =
     Some ((reg, None),
       feedback @ [\<lparr>Error = None,
         Message = ''retry attempt '' @ Sprintf_d attempt @ '' successful''\<rparr>], w1)"
  using assms by (subst retry_loop.simps) simp

lemma retry_loop_exhausted:
  assumes "f w = ((reg, Some err), w1)" and "attempt = max'" and "max' \<noteq> 0"
  shows "retry_loop f sw ds max' attempt feedback w =
     Some ((reg, Some err), feedback @ [\<lparr>Error = None, Message = ''all attempts used''\<rparr>], w1)"
  using assms by (subst retry_loop.simps) simp

lemma retry_loop_cancelled:
  assumes "f w = ((reg, Some err), w1)" and "\<not> (attempt = max' \<and> max' \<noteq> 0)"
    and "sw (backoff_delay attempt) w1 = (Some ctx_err, w2)"
  shows "retry_loop f sw ds max' attempt feedback w =
     Some ((None, Some ctx_err),
       feedback @ [\<lparr>Error = Some err,
         Message = ''retry attempt '' @ Sprintf_d attempt @ '' failed repeat after ''
                   @ ds (backoff_delay attempt)\<rparr>], w2)"
  using assms by (subst retry_loop.simps) (simp add: Let_def)

lemma retry_loop_backoff:
  assumes "f w = ((reg, Some err), w1)" and "\<not> (attempt = max' \<and> max' \<noteq> 0)"
    and "sw (backoff_delay attempt) w1 = (None, w2)"
  shows "retry_loop f sw ds max' attempt feedback w =
     retry_loop f sw ds max' (attempt + 1)
       (feedback @ [\<lparr>Error = Some err,
         Message = ''retry attempt '' @ Sprintf_d attempt @ '' failed repeat after ''
                   @ ds (backoff_delay attempt)\<rparr>]) w2"
  using assms by (subst retry_loop.simps) (auto simp add: Let_def)

text \<open>
  With \<open>max = 0\<close>, an operation that fails at every call and a context that is never done,
  no run of the loop returns.
\<close>

lemma retry_loop_unbounded_aux:
  assumes "retry_loop f sw ds max' attempt feedback w = Some y"
  shows "\<not> (max' = 0 \<and> (\<forall>v. snd (fst (f v)) \<noteq> None) \<and> (\<forall>d v. fst (sw d v) = None))"
proof (rule retry_loop.raw_induct
    [where P = "\<lambda>f sw ds m a fb w y.
       \<not> (m = 0 \<and> (\<forall>v. snd (fst (f v)) \<noteq> None) \<and> (\<forall>d v. fst (sw d v) = None))",
     OF _ assms], goal_cases)
  case (1 rl f sw ds max' attempt feedback w y)
  show ?case
  proof
    assume pre: "max' = 0 \<and> (\<forall>v. snd (fst (f v)) \<noteq> None) \<and> (\<forall>d v. fst (sw d v) = None)"
    obtain reg e w1 where f: "f w = ((reg, e), w1)"
      by (metis prod.exhaust)
    with pre obtain err where e: "e = Some err"
      by (metis fst_conv snd_conv not_None_eq)
    obtain c w2 where s: "sw (backoff_delay attempt) w1 = (c, w2)"
      by (metis prod.exhaust)
    with pre have c: "c = None"
      by (metis fst_conv)
    from 1(2) f e s c pre
    have "rl f sw ds max' (attempt + 1)
            (feedback @ [\<lparr>Error = Some err,
               Message = ''retry attempt '' @ Sprintf_d attempt @ '' failed repeat after ''
                   @ ds (backoff_delay attempt)\<rparr>]) w2 = Some y"
      by (simp add: Let_def)
    from 1(1)[OF this] pre show False by blast
  qed
qed

lemma retry_loop_forever:
  assumes "\<And>v. snd (fst (f v)) \<noteq> None" and "\<And>d v. fst (sw d v) = None"
  shows "retry_loop f sw ds 0 attempt feedback w = None"
proof (cases "retry_loop f sw ds 0 attempt feedback w")
  case None
  then show ?thesis .
next
  case (Some y)
  from retry_loop_unbounded_aux[OF this] assms show ?thesis by blast
qed


lemma Sprintf_d_small:
  "Sprintf_d 1 = ''1''" "Sprintf_d 2 = ''2''" "Sprintf_d 3 = ''3''"
  by (simp_all add: Sprintf_d_def digits.simps)

lemma backoff_delay_first:
  "backoff_delay 1 = 2 * Second" "backoff_delay 2 = 4 * Second"
  by (simp_all add: backoff_delay_def Second_def)

text \<open>
  With \<open>max = 0\<close> every failed attempt whose wait ends by the timer is followed by another
  attempt: after \<open>n\<close> failures a success at call \<open>n + 1\<close> is returned, with the \<open>n\<close> failure
  events and the success event.
\<close>

lemma retry_loop_unbounded_run:
  assumes "\<And>i. i < n \<Longrightarrow> f (ws i) = ((rs i, Some (es i)), vs i)"
    and "\<And>i. i < n \<Longrightarrow> sw (backoff_delay (attempt + of_nat i)) (vs i) = (None, ws (Suc i))"
    and "f (ws n) = ((ok, None), u)"
  shows "retry_loop f sw ds 0 attempt feedback (ws 0) =
     Some ((ok, None),
       feedback @
       map (\<lambda>i. \<lparr>Error = Some (es i),
                 Message = ''retry attempt '' @ Sprintf_d (attempt + of_nat i)
                   @ '' failed repeat after '' @ ds (backoff_delay (attempt + of_nat i))\<rparr>)
           [0..<n] @
       [\<lparr>Error = None,
         Message = ''retry attempt '' @ Sprintf_d (attempt + of_nat n) @ '' successful''\<rparr>], u)"
  using assms
proof (induction n arbitrary: attempt feedback ws rs es vs)
  case 0
  then show ?case
    by (simp add: retry_loop_success)
next
  case (Suc n)
  let ?ev = "\<lambda>a e. \<lparr>Error = Some e,
      Message = ''retry attempt '' @ Sprintf_d a @ '' failed repeat after ''
                @ ds (backoff_delay a)\<rparr>"
  have first: "f (ws 0) = ((rs 0, Some (es 0)), vs 0)"
    using Suc.prems(1)[of 0] by simp
  have wait: "sw (backoff_delay attempt) (vs 0) = (None, ws (Suc 0))"
    using Suc.prems(2)[of 0] by simp
  have step: "retry_loop f sw ds 0 attempt feedback (ws 0) =
      retry_loop f sw ds 0 (attempt + 1) (feedback @ [?ev attempt (es 0)]) (ws (Suc 0))"
    using first _ wait by (rule retry_loop_backoff) simp
  have rest: "retry_loop f sw ds 0 (attempt + 1) (feedback @ [?ev attempt (es 0)])
        ((ws \<circ> Suc) 0) =
      Some ((ok, None),
        (feedback @ [?ev attempt (es 0)]) @
        map (\<lambda>i. ?ev (attempt + 1 + of_nat i) ((es \<circ> Suc) i)) [0..<n] @
        [\<lparr>Error = None,
          Message = ''retry attempt '' @ Sprintf_d (attempt + 1 + of_nat n) @ '' successful''\<rparr>],
        u)"
  proof (rule Suc.IH [where rs = "rs \<circ> Suc" and vs = "vs \<circ> Suc"])
    fix i assume "i < n"
    then show "f ((ws \<circ> Suc) i) = (((rs \<circ> Suc) i, Some ((es \<circ> Suc) i)), (vs \<circ> Suc) i)"
      using Suc.prems(1)[of "Suc i"] by simp
  next
    fix i assume "i < n"
    then show "sw (backoff_delay (attempt + 1 + of_nat i)) ((vs \<circ> Suc) i) =
        (None, (ws \<circ> Suc) (Suc i))"
      using Suc.prems(2)[of "Suc i"] by (simp add: ac_simps)
  next
    show "f ((ws \<circ> Suc) n) = ((ok, None), u)"
      using Suc.prems(3) by simp
  qed
  have shift: "map (\<lambda>i. ?ev (attempt + of_nat i) (es i)) [0..<Suc n] =
      ?ev attempt (es 0) # map (\<lambda>i. ?ev (attempt + 1 + of_nat i) ((es \<circ> Suc) i)) [0..<n]"
  proof -
    have "[0..<Suc n] = 0 # map Suc [0..<n]"
      by (simp add: upt_conv_Cons map_Suc_upt del: upt_Suc)
    then show ?thesis
      by (simp add: comp_def ac_simps del: upt_Suc)
  qed
  from step rest show ?case
    unfolding shift by (simp add: ac_simps del: upt_Suc)
qed

text \<open>
  C1. When the wrapped operation fails on an attempt with \<open>attempt = max\<close> and
  \<open>max \<noteq> 0\<close>, the driver sends the event "all attempts used" and returns the result and
  the error of that call. With \<open>max = 0\<close> (given, or no maximum given), an operation that
  always fails and a wait that is never cancelled, the driver never returns. With
  \<open>max = 2\<close> and two failing calls, exactly one failure event and one "all attempts used"
  event are sent, and the error returned is the one of the second call. With \<open>max = 0\<close>
  the driver goes on retrying: a failure followed by the timer leads to the next attempt,
  whatever the attempt number, and after any number \<open>n\<close> of failures the operation is
  called again, a success then being returned with \<open>n\<close> failure events before its own.
\<close>

theorem retry_exhausted_or_unbounded:
  "(f w = ((reg, Some err), w1) \<and> attempt = max' \<and> max' \<noteq> 0 \<longrightarrow>
      retry_loop f sw ds max' attempt feedback w =
        Some ((reg, Some err),
              feedback @ [\<lparr>Error = None, Message = ''all attempts used''\<rparr>], w1))
   \<and> ((\<forall>v. snd (fst (f v)) \<noteq> None) \<and> (\<forall>d v. fst (sw d v) = None) \<longrightarrow>
        retry_loop f sw ds 0 attempt feedback w = None
        \<and> retry f sw ds [0] w = None
        \<and> retry f sw ds [] w = None)
   \<and> (f w = ((r1, Some e1), v1) \<and> sw (2 * Second) v1 = (None, v2)
        \<and> f v2 = ((r2, Some e2), v3) \<longrightarrow>
        retry f sw ds [2] w =
          Some ((r2, Some e2),
                [\<lparr>Error = Some e1,
                  Message = ''retry attempt 1 failed repeat after '' @ ds (2 * Second)\<rparr>,
                 \<lparr>Error = None, Message = ''all attempts used''\<rparr>], v3))
   \<and> (f w = ((reg, Some err), w1) \<and> sw (backoff_delay attempt) w1 = (None, w2) \<longrightarrow>
        retry_loop f sw ds 0 attempt feedback w =
          retry_loop f sw ds 0 (attempt + 1)
            (feedback @ [\<lparr>Error = Some err,
               Message = ''retry attempt '' @ Sprintf_d attempt @ '' failed repeat after ''
                         @ ds (backoff_delay attempt)\<rparr>]) w2)
   \<and> ((\<forall>i<n. f (ws i) = ((rs i, Some (es i)), vs i)
           \<and> sw (backoff_delay (attempt + of_nat i)) (vs i) = (None, ws (Suc i)))
        \<and> f (ws n) = ((ok, None), u) \<longrightarrow>
        retry_loop f sw ds 0 attempt feedback (ws 0) =
          Some ((ok, None),
            feedback @
            map (\<lambda>i. \<lparr>Error = Some (es i),
                      Message = ''retry attempt '' @ Sprintf_d (attempt + of_nat i)
                        @ '' failed repeat after ''
                        @ ds (backoff_delay (attempt + of_nat i))\<rparr>)
                [0..<n] @
            [\<lparr>Error = None,
              Message = ''retry attempt '' @ Sprintf_d (attempt + of_nat n)
                        @ '' successful''\<rparr>], u))"
proof (intro conjI impI)
  assume "f w = ((reg, Some err), w1) \<and> attempt = max' \<and> max' \<noteq> 0"
  then show "retry_loop f sw ds max' attempt feedback w =
      Some ((reg, Some err), feedback @ [\<lparr>Error = None, Message = ''all attempts used''\<rparr>], w1)"
    by (simp add: retry_loop_exhausted)
next
  assume a: "(\<forall>v. snd (fst (f v)) \<noteq> None) \<and> (\<forall>d v. fst (sw d v) = None)"
  then have forever: "\<And>a fb v. retry_loop f sw ds 0 a fb v = None"
    by (intro retry_loop_forever) auto
  show "retry_loop f sw ds 0 attempt feedback w = None"
    by (rule forever)
  show "retry f sw ds [0] w = None"
    by (simp add: retry_def forever)
  show "retry f sw ds [] w = None"
    by (simp add: retry_def forever)
next
  assume a: "f w = ((r1, Some e1), v1) \<and> sw (2 * Second) v1 = (None, v2)
        \<and> f v2 = ((r2, Some e2), v3)"
  have "retry f sw ds [2] w = retry_loop f sw ds 2 1 [] w"
    by (simp add: retry_def)
  also have "\<dots> = retry_loop f sw ds 2 (1 + 1)
      ([] @ [\<lparr>Error = Some e1,
        Message = ''retry attempt '' @ Sprintf_d 1 @ '' failed repeat after ''
                  @ ds (backoff_delay 1)\<rparr>]) v2"
    using a by (intro retry_loop_backoff) (auto simp add: backoff_delay_first)
  also have "\<dots> = Some ((r2, Some e2),
      ([] @ [\<lparr>Error = Some e1,
        Message = ''retry attempt '' @ Sprintf_d 1 @ '' failed repeat after ''
                  @ ds (backoff_delay 1)\<rparr>]) @ [\<lparr>Error = None, Message = ''all attempts used''\<rparr>], v3)"
    using a by (intro retry_loop_exhausted) auto
  finally show "retry f sw ds [2] w =
          Some ((r2, Some e2),
                [\<lparr>Error = Some e1,
                  Message = ''retry attempt 1 failed repeat after '' @ ds (2 * Second)\<rparr>,
                 \<lparr>Error = None, Message = ''all attempts used''\<rparr>], v3)"
    by (simp add: Sprintf_d_small backoff_delay_first)
next
  assume a: "f w = ((reg, Some err), w1) \<and> sw (backoff_delay attempt) w1 = (None, w2)"
  then have 1: "f w = ((reg, Some err), w1)"
    and 2: "sw (backoff_delay attempt) w1 = (None, w2)"
    by simp_all
  show "retry_loop f sw ds 0 attempt feedback w =
          retry_loop f sw ds 0 (attempt + 1)
            (feedback @ [\<lparr>Error = Some err,
               Message = ''retry attempt '' @ Sprintf_d attempt @ '' failed repeat after ''
                         @ ds (backoff_delay attempt)\<rparr>]) w2"
    using 1 _ 2 by (rule retry_loop_backoff) simp
next
  assume a: "(\<forall>i<n. f (ws i) = ((rs i, Some (es i)), vs i)
           \<and> sw (backoff_delay (attempt + of_nat i)) (vs i) = (None, ws (Suc i)))
        \<and> f (ws n) = ((ok, None), u)"
  show "retry_loop f sw ds 0 attempt feedback (ws 0) =
          Some ((ok, None),
            feedback @
            map (\<lambda>i. \<lparr>Error = Some (es i),
                      Message = ''retry attempt '' @ Sprintf_d (attempt + of_nat i)
                        @ '' failed repeat after ''
                        @ ds (backoff_delay (attempt + of_nat i))\<rparr>)
                [0..<n] @
            [\<lparr>Error = None,
              Message = ''retry attempt '' @ Sprintf_d (attempt + of_nat n)
                        @ '' successful''\<rparr>], u)"
    using a by (intro retry_loop_unbounded_run) auto
qed

theorem retry_exhausted_or_unbounded_witness:
  "retry_loop always_fails timer_fires whole_seconds 5 5 [] 4 =
     Some ((None, Some (BackendError ''refused 4'')),
           [\<lparr>Error = None, Message = ''all attempts used''\<rparr>], 5)
   \<and> retry always_fails timer_fires whole_seconds [0] 0 = None
   \<and> retry always_fails timer_fires whole_seconds [] 0 = None
   \<and> retry always_fails timer_fires whole_seconds [2] 0 =
       Some ((None, Some (BackendError ''refused 1'')),
             [\<lparr>Error = Some (BackendError ''refused 0''),
               Message = ''retry attempt 1 failed repeat after 2s''\<rparr>,
              \<lparr>Error = None, Message = ''all attempts used''\<rparr>], 2)
   \<and> retry_loop fails_twice timer_fires whole_seconds 0 1 [] 0 =
       retry_loop fails_twice timer_fires whole_seconds 0 2
         [\<lparr>Error = Some (BackendError ''refused 0''),
           Message = ''retry attempt 1 failed repeat after 2s''\<rparr>] 1
   \<and> retry_loop fails_twice timer_fires whole_seconds 0 1 [] 0 =
       Some ((Some 2, None),
             [\<lparr>Error = Some (BackendError ''refused 0''),
               Message = ''retry attempt 1 failed repeat after 2s''\<rparr>,
              \<lparr>Error = Some (BackendError ''refused 1''),
               Message = ''retry attempt 2 failed repeat after 4s''\<rparr>,
              \<lparr>Error = None, Message = ''retry attempt 3 successful''\<rparr>], 3)"
proof -
  have bounded: "retry_loop always_fails timer_fires whole_seconds 5 5 [] 4 =
     Some ((None, Some (BackendError ''refused 4'')),
           [\<lparr>Error = None, Message = ''all attempts used''\<rparr>], 5)"
    using retry_exhausted_or_unbounded [where f = always_fails and sw = timer_fires
      and ds = whole_seconds and w = 4 and reg = None and err = "BackendError ''refused 4''"
      and ?w1.0 = 5 and attempt = 5 and max' = 5 and feedback = "[]"]
    by (simp add: always_fails_def digits.simps)
  have unbounded: "retry always_fails timer_fires whole_seconds [0] 0 = None
     \<and> retry always_fails timer_fires whole_seconds [] 0 = None
     \<and> retry always_fails timer_fires whole_seconds [2] 0 =
       Some ((None, Some (BackendError ''refused 1'')),
             [\<lparr>Error = Some (BackendError ''refused 0''),
               Message = ''retry attempt 1 failed repeat after 2s''\<rparr>,
              \<lparr>Error = None, Message = ''all attempts used''\<rparr>], 2)"
    using retry_exhausted_or_unbounded [where f = always_fails and sw = timer_fires
      and ds = whole_seconds and w = 0
      and ?r1.0 = None and ?e1.0 = "BackendError ''refused 0''" and ?v1.0 = 1 and ?v2.0 = 1
      and ?r2.0 = None and ?e2.0 = "BackendError ''refused 1''" and ?v3.0 = 2]
    by (simp add: always_fails_def timer_fires_def whole_seconds_def Second_def Sprintf_d_def
        digits.simps)
  have run: "retry_loop fails_twice timer_fires whole_seconds 0 1 [] 0 =
       retry_loop fails_twice timer_fires whole_seconds 0 2
         [\<lparr>Error = Some (BackendError ''refused 0''),
           Message = ''retry attempt 1 failed repeat after 2s''\<rparr>] 1
     \<and> retry_loop fails_twice timer_fires whole_seconds 0 1 [] 0 =
       Some ((Some 2, None),
             [\<lparr>Error = Some (BackendError ''refused 0''),
               Message = ''retry attempt 1 failed repeat after 2s''\<rparr>,
              \<lparr>Error = Some (BackendError ''refused 1''),
               Message = ''retry attempt 2 failed repeat after 4s''\<rparr>,
              \<lparr>Error = None, Message = ''retry attempt 3 successful''\<rparr>], 3)"
  proof -
    have first: "fails_twice 0 = ((None, Some (BackendError ''refused 0'')), 1)
        \<and> timer_fires (backoff_delay 1) 1 = (None, 1)"
      by (simp add: fails_twice_def timer_fires_def digits.simps)
    have fails: "(\<forall>i<2. fails_twice i =
            ((None, Some (BackendError (''refused '' @ digits i))), Suc i)
          \<and> timer_fires (backoff_delay (1 + of_nat i)) (Suc i) = (None, Suc i))
        \<and> fails_twice 2 = ((Some 2, None), 3)"
      by (simp add: fails_twice_def timer_fires_def)
    note inst = retry_exhausted_or_unbounded [where f = fails_twice and sw = timer_fires
      and ds = whole_seconds and w = 0 and reg = None and err = "BackendError ''refused 0''"
      and ?w1.0 = 1 and ?w2.0 = 1 and attempt = 1 and feedback = "[]"
      and n = 2 and ws = "\<lambda>i. i" and vs = Suc and rs = "\<lambda>i. None"
      and es = "\<lambda>i. BackendError (''refused '' @ digits i)" and ok = "Some 2" and u = 3]
    note step = inst [THEN conjunct2, THEN conjunct2, THEN conjunct2, THEN conjunct1,
        THEN mp, OF first]
    note run = inst [THEN conjunct2, THEN conjunct2, THEN conjunct2, THEN conjunct2,
        THEN mp, OF fails]
    have calls: "[0..<2] = [0, Suc 0]"
      by (simp add: numeral_2_eq_2)
    from step run [unfolded calls] show ?thesis
      by (simp add: whole_seconds_def backoff_delay_def Second_def Sprintf_d_def digits.simps)
  qed
  from bounded unbounded run show ?thesis
    by blast
qed

text \<open>
  C2. With \<open>max = 3\<close> and an operation that fails on its first two calls and succeeds on
  the third, the driver sends two failure events and one success event naming attempt 3,
  waits \<open>1 second << attempt\<close> after each failure (2 s, then 4 s), and returns the handle
  of the third call right after that call.
\<close>

theorem retry_succeeds_on_third_attempt:
  assumes "f w0 = ((r1, Some e1), w1)" and "sw (2 * Second) w1 = (None, w2)"
    and "f w2 = ((r2, Some e2), w3)" and "sw (4 * Second) w3 = (None, w4)"
    and "f w4 = ((r3, None), w5)"
  shows "backoff_delay 1 = 2 * Second \<and> backoff_delay 2 = 4 * Second \<and>
     retry f sw ds [3] w0 =
       Some ((r3, None),
             [\<lparr>Error = Some e1,
               Message = ''retry attempt 1 failed repeat after '' @ ds (2 * Second)\<rparr>,
              \<lparr>Error = Some e2,
               Message = ''retry attempt 2 failed repeat after '' @ ds (4 * Second)\<rparr>,
              \<lparr>Error = None, Message = ''retry attempt 3 successful''\<rparr>], w5)"
proof -
  let ?ev1 = "\<lparr>Error = Some e1,
      Message = ''retry attempt '' @ Sprintf_d 1 @ '' failed repeat after ''
                @ ds (backoff_delay 1)\<rparr>"
  let ?ev2 = "\<lparr>Error = Some e2,
      Message = ''retry attempt '' @ Sprintf_d 2 @ '' failed repeat after ''
                @ ds (backoff_delay 2)\<rparr>"
  have "retry f sw ds [3] w0 = retry_loop f sw ds 3 1 [] w0"
    by (simp add: retry_def)
  also have "\<dots> = retry_loop f sw ds 3 (1 + 1) ([] @ [?ev1]) w2"
    using assms(1,2) by (intro retry_loop_backoff) (auto simp add: backoff_delay_first)
  also have "\<dots> = retry_loop f sw ds 3 2 [?ev1] w2"
    by simp
  also have "\<dots> = retry_loop f sw ds 3 (2 + 1) ([?ev1] @ [?ev2]) w4"
    using assms(3,4) by (intro retry_loop_backoff) (auto simp add: backoff_delay_first)
  also have "\<dots> = retry_loop f sw ds 3 3 [?ev1, ?ev2] w4"
    by simp
  also have "\<dots> = Some ((r3, None),
      [?ev1, ?ev2] @ [\<lparr>Error = None,
         Message = ''retry attempt '' @ Sprintf_d 3 @ '' successful''\<rparr>], w5)"
    using assms(5) by (rule retry_loop_success)
  finally show ?thesis
    by (simp add: Sprintf_d_small backoff_delay_first)
qed

theorem retry_succeeds_on_third_attempt_witness:
  "backoff_delay 1 = 2 * Second \<and> backoff_delay 2 = 4 * Second \<and>
   retry fails_twice timer_fires whole_seconds [3] 0 =
     Some ((Some 2, None),
           [\<lparr>Error = Some (BackendError ''refused 0''),
             Message = ''retry attempt 1 failed repeat after 2s''\<rparr>,
            \<lparr>Error = Some (BackendError ''refused 1''),
             Message = ''retry attempt 2 failed repeat after 4s''\<rparr>,
            \<lparr>Error = None, Message = ''retry attempt 3 successful''\<rparr>], 3)"
proof -
  have 1: "fails_twice 0 = ((None, Some (BackendError ''refused 0'')), 1)"
    by (simp add: fails_twice_def digits.simps)
  have 2: "timer_fires (2 * Second) 1 = (None, 1)"
    by (simp add: timer_fires_def)
  have 3: "fails_twice 1 = ((None, Some (BackendError ''refused 1'')), 2)"
    by (simp add: fails_twice_def digits.simps)
  have 4: "timer_fires (4 * Second) 2 = (None, 2)"
    by (simp add: timer_fires_def)
  have 5: "fails_twice 2 = ((Some 2, None), 3)"
    by (simp add: fails_twice_def)
  show ?thesis
    using retry_succeeds_on_third_attempt [OF 1 2 3 4 5, of whole_seconds]
    by (simp add: whole_seconds_def Second_def Sprintf_d_def digits.simps)
qed

text \<open>
  C3. When the context is done while the driver waits in the backoff delay, the driver
  returns a nil handle and the error of the context, not the error of the operation, and
  sends no event after the failure event that preceded the wait.
\<close>

theorem retry_cancelled_in_backoff:
  assumes "f w = ((reg, Some err), w1)" and "\<not> (attempt = max' \<and> max' \<noteq> 0)"
    and "sw (backoff_delay attempt) w1 = (Some ctx_err, w2)"
  shows "retry_loop f sw ds max' attempt feedback w =
     Some ((None, Some ctx_err),
       feedback @ [\<lparr>Error = Some err,
         Message = ''retry attempt '' @ Sprintf_d attempt @ '' failed repeat after ''
                   @ ds (backoff_delay attempt)\<rparr>], w2)"
  using assms by (rule retry_loop_cancelled)

theorem retry_cancelled_in_backoff_witness:
  "retry_loop always_fails ctx_cancelled whole_seconds 3 2
     [\<lparr>Error = Some (BackendError ''refused 0''),
       Message = ''retry attempt 1 failed repeat after 2s''\<rparr>] 1 =
   Some ((None, Some ContextCanceled),
         [\<lparr>Error = Some (BackendError ''refused 0''),
           Message = ''retry attempt 1 failed repeat after 2s''\<rparr>,
          \<lparr>Error = Some (BackendError ''refused 1''),
           Message = ''retry attempt 2 failed repeat after 4s''\<rparr>], 2)"
proof -
  have 1: "always_fails 1 = ((None, Some (BackendError ''refused 1'')), 2)"
    by (simp add: always_fails_def digits.simps)
  have 2: "\<not> ((2 :: go_int) = 3 \<and> (3 :: go_int) \<noteq> 0)"
    by simp
  have 3: "ctx_cancelled (backoff_delay 2) 2 = (Some ContextCanceled, 2)"
    by (simp add: ctx_cancelled_def)
  show ?thesis
    using retry_cancelled_in_backoff [where f = always_fails and w = 1 and attempt = 2
        and max' = 3 and sw = ctx_cancelled and ds = whole_seconds, OF 1 2 3]
    by (simp add: whole_seconds_def backoff_delay_def Second_def Sprintf_d_def digits.simps)
qed


section \<open>The backend adapter and the connection options\<close>

text \<open>
  C6. When the backend query succeeds with no healthy instance, \<open>ServiceAddresses\<close>
  returns an error, never an empty list. The error is \<open>consul.ErrServicesNotFound\<close>, the
  variable of the backend package: it is not the shared value \<open>discovery.ErrNotFound\<close>,
  whose text it repeats.
\<close>

theorem ServiceAddresses_empty_is_not_ErrNotFound:
  assumes "Health_Service env (client r) serviceName [] True w = (([], None), w1)"
  shows "ServiceAddresses env r serviceName w = (Inl ErrServicesNotFound, w1)
     \<and> ErrServicesNotFound \<noteq> ErrNotFound
     \<and> Error_text ErrServicesNotFound = Error_text ErrNotFound"
  using assms by (simp add: ServiceAddresses_def)

theorem ServiceAddresses_empty_is_not_ErrNotFound_witness:
  "ServiceAddresses (test_env True) \<lparr>client = (), config = \<lparr>Address = ''10.0.0.1:8500'', HttpAuth = None\<rparr>\<rparr>
      ''orders'' 0 = (Inl ErrServicesNotFound, 1)
   \<and> ErrServicesNotFound \<noteq> ErrNotFound
   \<and> Error_text ErrServicesNotFound = Error_text ErrNotFound"
proof -
  have h: "Health_Service (test_env True)
      (client \<lparr>client = (), config = \<lparr>Address = ''10.0.0.1:8500'', HttpAuth = None\<rparr>\<rparr>)
      ''orders'' [] True 0 = (([], None), 1)"
    by (simp add: test_env_def)
  show ?thesis
    using ServiceAddresses_empty_is_not_ErrNotFound [OF h] by simp
qed

text \<open>One failing setter makes the loop over the setters fail, wherever it stands.\<close>

lemma call_options_error:
  assumes "x \<in> set opts" and "\<And>opt'. fst (call_option ds x opt') \<noteq> None"
  shows "fst (call_options ds opts opt) \<noteq> None"
  using assms(1)
proof (induction opts arbitrary: opt)
  case Nil
  then show ?case by simp
next
  case (Cons y ys)
  obtain e opt1 where c: "call_option ds y opt = (e, opt1)"
    by (cases "call_option ds y opt")
  show ?case
  proof (cases e)
    case (Some err)
    with c show ?thesis by simp
  next
    case None
    with c assms(2)[of opt] have "x \<noteq> y" by auto
    with Cons.prems have "x \<in> set ys" by simp
    from Cons.IH[OF this, of opt1] c None show ?thesis by simp
  qed
qed

text \<open>
  C8. For a negative duration (wait, timeout, max-backoff) and a negative limit, the
  setter returns its validation error and leaves the options it was applied to as they
  were. A call of \<open>ServiceConnectGRPC\<close> that passes such a setter returns the wrapped
  error without calling gRPC: the world is unchanged.
\<close>

theorem negative_argument_rejected:
  assumes "sint d < 0"
  shows "call_option ds (WithWait d) opt =
           (Some (Errorf ''wait time cannot be less than zero''), opt)
     \<and> call_option ds (WithTimeout d) opt =
           (Some (Errorf ''timeout cannot be less than zero''), opt)
     \<and> call_option ds (WithMaxBackoff d) opt =
           (Some (Errorf ''maxbackoff cannot be less than zero''), opt)
     \<and> call_option ds (WithLimit d) opt =
           (Some (Errorf ''limit cannot be less than zero''), opt)
     \<and> (x \<in> {WithWait d, WithTimeout d, WithMaxBackoff d, WithLimit d} \<and> x \<in> set opts
          \<and> HttpAuth (config r) \<noteq> None \<longrightarrow>
        (\<exists>err. targetQueryValues (Duration_String env) opts = Inl err
           \<and> ServiceConnectGRPC env r serviceName opts w =
               Returns ((None, Some (Wrapf ''decode options: '' err)), w)))"
proof (intro conjI impI)
  assume a: "x \<in> {WithWait d, WithTimeout d, WithMaxBackoff d, WithLimit d} \<and> x \<in> set opts
          \<and> HttpAuth (config r) \<noteq> None"
  then have xin: "x \<in> set opts"
    by simp
  from a assms have rej: "\<And>opt'. fst (call_option (Duration_String env) x opt') \<noteq> None"
    by auto
  have "fst (call_options (Duration_String env) opts zero_options) \<noteq> None"
    using xin rej by (rule call_options_error)
  then obtain err opt1 where
    "call_options (Duration_String env) opts zero_options = (Some err, opt1)"
    by (cases "call_options (Duration_String env) opts zero_options") auto
  then have "targetQueryValues (Duration_String env) opts = Inl err"
    by (simp add: targetQueryValues_def)
  with a show "\<exists>err. targetQueryValues (Duration_String env) opts = Inl err
           \<and> ServiceConnectGRPC env r serviceName opts w =
               Returns ((None, Some (Wrapf ''decode options: '' err)), w)"
    by (auto simp add: ServiceConnectGRPC_def Let_def)
qed (use assms in simp_all)

theorem negative_argument_rejected_witness:
  "call_option whole_seconds (WithWait (- 1)) (zero_options\<lparr>tag := Some ''blue''\<rparr>) =
     (Some (Errorf ''wait time cannot be less than zero''), zero_options\<lparr>tag := Some ''blue''\<rparr>)
   \<and> call_option whole_seconds (WithLimit (- 1)) (zero_options\<lparr>tag := Some ''blue''\<rparr>) =
     (Some (Errorf ''limit cannot be less than zero''), zero_options\<lparr>tag := Some ''blue''\<rparr>)
   \<and> ServiceConnectGRPC (test_env True)
        \<lparr>client = (), config = \<lparr>Address = ''10.0.0.1:8500'',
           HttpAuth = Some \<lparr>Username = ''u'', Password = ''p''\<rparr>\<rparr>\<rparr>
        ''orders'' [WithTag ''blue'', WithLimit (- 1)] 0 =
      Returns ((None, Some (Wrapf ''decode options: '' (Errorf ''limit cannot be less than zero''))), 0)"
proof -
  have neg: "sint (- 1 :: 64 word) < 0"
    by simp
  show ?thesis
    using negative_argument_rejected [OF neg, where ds = whole_seconds
        and opt = "zero_options\<lparr>tag := Some ''blue''\<rparr>" and x = "WithLimit (- 1)"
        and opts = "[WithTag ''blue'', WithLimit (- 1)]" and env = "test_env True"
        and r = "\<lparr>client = (), config = \<lparr>Address = ''10.0.0.1:8500'',
           HttpAuth = Some \<lparr>Username = ''u'', Password = ''p''\<rparr>\<rparr>\<rparr>"
        and serviceName = "''orders''" and w = 0]
    by (auto simp add: targetQueryValues_def zero_options_def test_env_def)
qed


lemma NewRegistry_nil_config:
  assumes "NewRegistry env None = Inr r"
  shows "HttpAuth (config r) = HttpAuth (api_DefaultConfig env)"
  using assms by (auto simp add: NewRegistry_def Let_def split: sum.splits)

lemma NewRegistry_config:
  assumes "NewRegistry env (Some c) = Inr r"
  shows "api_NewClient env ((api_DefaultConfig env)
           \<lparr>Address := Host c @ '':'' @ Sprintf_d (Port c),
            HttpAuth := Some \<lparr>Username = User c, Password = Pass c\<rparr>\<rparr>) =
         Inr (client r, Address (config r))
     \<and> HttpAuth (config r) = Some \<lparr>Username = User c, Password = Pass c\<rparr>"
  using assms by (auto simp add: NewRegistry_def Let_def split: sum.splits)

lemma ServiceConnectGRPC_returns:
  assumes "HttpAuth (config r) = Some auth"
  shows "\<exists>x. ServiceConnectGRPC env r serviceName opts w = Returns x"
  using assms
  by (cases "targetQueryValues (Duration_String env) opts")
    (simp_all add: ServiceConnectGRPC_def Let_def del: split_paired_Ex)

text \<open>
  C10. Where \<open>api.DefaultConfig()\<close> leaves \<open>HttpAuth\<close> unset, a registry made by
  \<open>NewRegistry\<close> from a nil configuration makes \<open>ServiceConnectGRPC\<close> panic on the nil
  pointer before it builds the target; a call that returns comes from a registry made
  from a non-nil configuration, and every such registry makes the call return.
\<close>

theorem ServiceConnectGRPC_nil_config_panics:
  assumes "HttpAuth (api_DefaultConfig env) = None"
  shows "(NewRegistry env None = Inr r \<longrightarrow>
            ServiceConnectGRPC env r serviceName opts w = Panics NilPointerDereference)
     \<and> (NewRegistry env config' = Inr r
          \<and> ServiceConnectGRPC env r serviceName opts w = Returns x \<longrightarrow> config' \<noteq> None)
     \<and> (NewRegistry env (Some c) = Inr r \<longrightarrow>
            (\<exists>x. ServiceConnectGRPC env r serviceName opts w = Returns x))"
proof (intro conjI impI)
  assume "NewRegistry env None = Inr r"
  then have "HttpAuth (config r) = HttpAuth (api_DefaultConfig env)"
    by (rule NewRegistry_nil_config)
  with assms show "ServiceConnectGRPC env r serviceName opts w = Panics NilPointerDereference"
    by (simp add: ServiceConnectGRPC_def)
next
  assume a: "NewRegistry env config' = Inr r
    \<and> ServiceConnectGRPC env r serviceName opts w = Returns x"
  show "config' \<noteq> None"
  proof
    assume "config' = None"
    with a have "HttpAuth (config r) = HttpAuth (api_DefaultConfig env)"
      by (simp add: NewRegistry_nil_config)
    with assms have "ServiceConnectGRPC env r serviceName opts w = Panics NilPointerDereference"
      by (simp add: ServiceConnectGRPC_def)
    with a show False by simp
  qed
next
  assume "NewRegistry env (Some c) = Inr r"
  then have "HttpAuth (config r) = Some \<lparr>Username = User c, Password = Pass c\<rparr>"
    by (simp add: NewRegistry_config)
  then show "\<exists>x. ServiceConnectGRPC env r serviceName opts w = Returns x"
    by (rule ServiceConnectGRPC_returns)
qed

theorem ServiceConnectGRPC_nil_config_panics_witness:
  "NewRegistry (test_env True) None =
     Inr \<lparr>client = (), config = \<lparr>Address = ''127.0.0.1:8500'', HttpAuth = None\<rparr>\<rparr>
   \<and> ServiceConnectGRPC (test_env True)
       \<lparr>client = (), config = \<lparr>Address = ''127.0.0.1:8500'', HttpAuth = None\<rparr>\<rparr>
       ''orders'' [WithHealthy True] 0 = Panics NilPointerDereference
   \<and> NewRegistry (test_env True) (Some DefaultConfig) =
     Inr \<lparr>client = (), config = \<lparr>Address = ''localhost:8500'',
            HttpAuth = Some \<lparr>Username = [], Password = []\<rparr>\<rparr>\<rparr>
   \<and> (\<exists>x. ServiceConnectGRPC (test_env True)
       \<lparr>client = (), config = \<lparr>Address = ''localhost:8500'',
            HttpAuth = Some \<lparr>Username = [], Password = []\<rparr>\<rparr>\<rparr>
       ''orders'' [WithHealthy True] 0 = Returns x)"
proof -
  have unset: "HttpAuth (api_DefaultConfig (test_env True)) = None"
    by (simp add: test_env_def)
  have nil: "NewRegistry (test_env True) None =
     Inr \<lparr>client = (), config = \<lparr>Address = ''127.0.0.1:8500'', HttpAuth = None\<rparr>\<rparr>"
    by (simp add: NewRegistry_def Let_def test_env_def)
  have dflt: "NewRegistry (test_env True) (Some DefaultConfig) =
     Inr \<lparr>client = (), config = \<lparr>Address = ''localhost:8500'',
            HttpAuth = Some \<lparr>Username = [], Password = []\<rparr>\<rparr>\<rparr>"
    by (simp add: NewRegistry_def Let_def test_env_def DefaultConfig_def default_host_def
        default_port_def Sprintf_d_def digits.simps)
  show ?thesis
    using ServiceConnectGRPC_nil_config_panics [OF unset, where
        r = "\<lparr>client = (), config = \<lparr>Address = ''127.0.0.1:8500'', HttpAuth = None\<rparr>\<rparr>"
        and serviceName = "''orders''" and opts = "[WithHealthy True]" and w = 0]
      ServiceConnectGRPC_nil_config_panics [OF unset, where c = DefaultConfig and
        r = "\<lparr>client = (), config = \<lparr>Address = ''localhost:8500'',
            HttpAuth = Some \<lparr>Username = [], Password = []\<rparr>\<rparr>\<rparr>"
        and serviceName = "''orders''" and opts = "[WithHealthy True]" and w = 0]
      nil dflt
    by simp
qed

text \<open>A handle the retry driver returns is one the wrapped operation returned.\<close>

lemma retry_loop_handle:
  assumes "retry_loop f sw ds max' attempt feedback w = Some y"
  shows "\<forall>r. fst (fst y) = Some r \<longrightarrow> (\<exists>v e v'. f v = ((Some r, e), v'))"
proof (rule retry_loop.raw_induct
    [where P = "\<lambda>f sw ds m a fb w y.
       \<forall>r. fst (fst y) = Some r \<longrightarrow> (\<exists>v e v'. f v = ((Some r, e), v'))",
     OF _ assms], goal_cases)
  case (1 rl f sw ds max' attempt feedback w y)
  obtain reg e w1 where c: "f w = ((reg, e), w1)"
    by (metis prod.exhaust)
  obtain ce w2 where s: "sw (backoff_delay attempt) w1 = (ce, w2)"
    by (metis prod.exhaust)
  show ?case
  proof (intro allI impI)
    fix r
    assume r: "fst (fst y) = Some r"
    show "\<exists>v e v'. f v = ((Some r, e), v')"
    proof (cases e)
      case None
      with 1(2) c r have "reg = Some r" by auto
      with c show ?thesis by blast
    next
      case (Some err)
      show ?thesis
      proof (cases "attempt = max' \<and> max' \<noteq> 0")
        case True
        with 1(2) c r Some have "reg = Some r" by auto
        with c show ?thesis by blast
      next
        case False
        show ?thesis
        proof (cases ce)
          case None
          with 1(2) c s Some False
          have "rl f sw ds max' (attempt + 1)
              (feedback @ [\<lparr>Error = Some err,
                 Message = ''retry attempt '' @ Sprintf_d attempt @ '' failed repeat after ''
                   @ ds (backoff_delay attempt)\<rparr>]) w2 = Some y"
            by (auto simp add: Let_def)
          from 1(1)[OF this] r show ?thesis by blast
        next
          case (Some ctx_err)
          with 1(2) c s \<open>e = Some err\<close> False r show ?thesis
            by (auto simp add: Let_def)
        qed
      qed
    qed
  qed
qed

lemma MakeRegistryAndRegisterService_nil_config:
  assumes "MakeRegistryAndRegisterService env instanceID cfgService None v = ((Some r, e), v')"
  shows "api_NewClient env ((api_DefaultConfig env)
           \<lparr>Address := ''localhost:8500'',
            HttpAuth := Some \<lparr>Username = [], Password = []\<rparr>\<rparr>) =
         Inr (client r, Address (config r))
     \<and> HttpAuth (config r) = Some \<lparr>Username = [], Password = []\<rparr>"
proof -
  from assms have "NewRegistry env (Some DefaultConfig) = Inr r"
    by (auto simp add: MakeRegistryAndRegisterService_def
        split: sum.splits option.splits prod.splits)
  then have "api_NewClient env ((api_DefaultConfig env)
           \<lparr>Address := Host DefaultConfig @ '':'' @ Sprintf_d (Port DefaultConfig),
            HttpAuth := Some \<lparr>Username = User DefaultConfig, Password = Pass DefaultConfig\<rparr>\<rparr>) =
         Inr (client r, Address (config r))
     \<and> HttpAuth (config r) =
         Some \<lparr>Username = User DefaultConfig, Password = Pass DefaultConfig\<rparr>"
    by (rule NewRegistry_config)
  then show ?thesis
    by (simp add: DefaultConfig_def default_host_def default_port_def Sprintf_d_def digits.simps)
qed

text \<open>
  C9. The retry task of a recovery calls \<open>MakeRegistryAndRegisterService\<close> with a nil
  registry configuration, whatever handle the supervisor was given (the task does not take
  it). So the client of a handle it rebuilds, through which that handle registers and
  pushes liveness, is the one \<open>api.NewClient\<close> makes for the address \<open>localhost:8500\<close>
  with empty credentials; the handle keeps these credentials, and the address as
  \<open>api.NewClient\<close> leaves it, which is \<open>localhost:8500\<close> when that call leaves this
  address alone (it has no scheme prefix to strip).
\<close>

theorem reconnect_targets_default_config:
  assumes "retryFunc env instanceID serviceCfg max' w = Some ((Some r, rerr), sent, w')"
  shows "api_NewClient env ((api_DefaultConfig env)
           \<lparr>Address := ''localhost:8500'',
            HttpAuth := Some \<lparr>Username = [], Password = []\<rparr>\<rparr>) =
         Inr (client r, Address (config r))
     \<and> HttpAuth (config r) = Some \<lparr>Username = [], Password = []\<rparr>
     \<and> ((\<forall>c a. api_NewClient env ((api_DefaultConfig env)
              \<lparr>Address := ''localhost:8500'',
               HttpAuth := Some \<lparr>Username = [], Password = []\<rparr>\<rparr>) = Inr (c, a)
            \<longrightarrow> a = ''localhost:8500'')
          \<longrightarrow> Address (config r) = ''localhost:8500'')"
proof -
  from assms have "retry_loop (MakeRegistryAndRegisterService env instanceID serviceCfg None)
      (select_wait env) (Duration_String env) max' 1 [] w = Some ((Some r, rerr), sent, w')"
    by (simp add: retryFunc_def retry_def)
  from retry_loop_handle[OF this]
  obtain v e v' where
    "MakeRegistryAndRegisterService env instanceID serviceCfg None v = ((Some r, e), v')"
    by auto
  then have "api_NewClient env ((api_DefaultConfig env)
           \<lparr>Address := ''localhost:8500'',
            HttpAuth := Some \<lparr>Username = [], Password = []\<rparr>\<rparr>) =
         Inr (client r, Address (config r))
     \<and> HttpAuth (config r) = Some \<lparr>Username = [], Password = []\<rparr>"
    by (rule MakeRegistryAndRegisterService_nil_config)
  then show ?thesis by blast
qed

lemma MakeRegistryAndRegisterService_test_env:
  "MakeRegistryAndRegisterService (test_env True) ''instance-1'' (Some test_service) None w =
     ((Some \<lparr>client = (), config = \<lparr>Address = ''localhost:8500'',
         HttpAuth = Some \<lparr>Username = [], Password = []\<rparr>\<rparr>\<rparr>, None), Suc w)"
  by (simp add: MakeRegistryAndRegisterService_def NewRegistry_def Let_def Register_def
      test_env_def DefaultConfig_def default_host_def default_port_def Sprintf_d_def
      digits.simps)

lemma retryFunc_test_env:
  "retryFunc (test_env True) ''instance-1'' (Some test_service) max' w =
     Some ((Some \<lparr>client = (), config = \<lparr>Address = ''localhost:8500'',
         HttpAuth = Some \<lparr>Username = [], Password = []\<rparr>\<rparr>\<rparr>, None),
       [\<lparr>Error = None, Message = ''retry attempt 1 successful''\<rparr>], Suc w)"
proof -
  have "retry_loop (MakeRegistryAndRegisterService (test_env True) ''instance-1''
            (Some test_service) None)
          (select_wait (test_env True)) (Duration_String (test_env True)) max' 1 [] w =
        Some ((Some \<lparr>client = (), config = \<lparr>Address = ''localhost:8500'',
            HttpAuth = Some \<lparr>Username = [], Password = []\<rparr>\<rparr>\<rparr>, None),
          [] @ [\<lparr>Error = None,
             Message = ''retry attempt '' @ Sprintf_d 1 @ '' successful''\<rparr>], Suc w)"
    by (rule retry_loop_success) (rule MakeRegistryAndRegisterService_test_env)
  then show ?thesis
    by (simp add: retryFunc_def retry_def Sprintf_d_small)
qed

theorem reconnect_targets_default_config_witness:
  "retryFunc (test_env True) ''instance-1'' (Some test_service) 3 0 =
     Some ((Some \<lparr>client = (), config = \<lparr>Address = ''localhost:8500'',
         HttpAuth = Some \<lparr>Username = [], Password = []\<rparr>\<rparr>\<rparr>, None),
       [\<lparr>Error = None, Message = ''retry attempt 1 successful''\<rparr>], 1)
   \<and> api_NewClient (test_env True)
       \<lparr>Address = ''localhost:8500'', HttpAuth = Some \<lparr>Username = [], Password = []\<rparr>\<rparr> =
     Inr ((), ''localhost:8500'')
   \<and> Address (config \<lparr>client = (), config = \<lparr>Address = ''localhost:8500'',
         HttpAuth = Some \<lparr>Username = [], Password = []\<rparr>\<rparr>\<rparr>) = ''localhost:8500''
   \<and> HttpAuth (config \<lparr>client = (), config = \<lparr>Address = ''localhost:8500'',
         HttpAuth = Some \<lparr>Username = [], Password = []\<rparr>\<rparr>\<rparr>) =
       Some \<lparr>Username = [], Password = []\<rparr>"
  using reconnect_targets_default_config [OF retryFunc_test_env [of 3 0]]
    retryFunc_test_env [of 3 0]
  by (simp add: test_env_def)

section \<open>The order of the setters\<close>

text \<open>
  With valid arguments no setter fails, and the loop over the setters is a fold of their
  effects on the snapshot.
\<close>

lemma call_option_valid:
  assumes "valid_argument x"
  shows "fst (call_option ds x opt) = None"
  using assms by (cases x) (simp_all add: Let_def)

lemma call_options_fold:
  assumes "\<forall>x\<in>set xs. valid_argument x"
  shows "call_options ds xs opt = (None, fold (\<lambda>x o'. snd (call_option ds x o')) xs opt)"
  using assms
proof (induction xs arbitrary: opt)
  case Nil
  then show ?case by simp
next
  case (Cons x xs)
  then have "fst (call_option ds x opt) = None"
    by (simp add: call_option_valid)
  then obtain opt1 where step: "call_option ds x opt = (None, opt1)"
    by (cases "call_option ds x opt") simp
  from Cons.prems have "call_options ds xs opt1 =
      (None, fold (\<lambda>x o'. snd (call_option ds x o')) xs opt1)"
    by (intro Cons.IH) simp
  with step show ?case
    by simp
qed

text \<open>A call of a setter carries out its assignment, and nothing else.\<close>

lemma call_option_assignment:
  "snd (call_option ds x opt) =
     (case assignment_of ds x of None \<Rightarrow> opt | Some u \<Rightarrow> assign u opt)"
  by (cases x) (simp_all add: Let_def)

text \<open>Assignments to different fields commute; an assignment is read back from the
  snapshot, so two different values for one field give different snapshots.\<close>

lemma assign_commute:
  assumes "field_name u = field_name v \<longrightarrow> u = v"
  shows "assign u (assign v opt) = assign v (assign u opt)"
proof (cases "u = v")
  case True
  then show ?thesis by simp
next
  case False
  with assms have "field_name u \<noteq> field_name v" by blast
  then show ?thesis
    by (cases u; cases v) simp_all
qed

lemma field_holds_assign: "field_holds u (assign u opt)"
  by (cases u) simp_all

lemma field_holds_unique:
  assumes "field_holds u opt" and "field_holds v opt" and "field_name u = field_name v"
  shows "u = v"
  using assms by (cases u; cases v) simp_all

lemma assign_conflict:
  assumes "field_name u = field_name v" and "u \<noteq> v"
  shows "assign u opt \<noteq> assign v opt'"
proof
  assume eq: "assign u opt = assign v opt'"
  have "field_holds u (assign u opt)"
    by (rule field_holds_assign)
  with eq have "field_holds u (assign v opt')"
    by simp
  moreover have "field_holds v (assign v opt')"
    by (rule field_holds_assign)
  ultimately have "u = v"
    using assms(1) by (rule field_holds_unique)
  with assms(2) show False by simp
qed


lemma call_option_commute_agree:
  assumes "case (assignment_of ds a, assignment_of ds b) of
      (Some u, Some v) \<Rightarrow> field_name u = field_name v \<longrightarrow> u = v
    | _ \<Rightarrow> True"
  shows "snd (call_option ds a (snd (call_option ds b opt))) =
         snd (call_option ds b (snd (call_option ds a opt)))"
proof (cases "assignment_of ds a")
  case None
  then show ?thesis
    by (simp add: call_option_assignment)
next
  case a: (Some u)
  show ?thesis
  proof (cases "assignment_of ds b")
    case None
    then show ?thesis
      by (simp add: call_option_assignment)
  next
    case b: (Some v)
    from assms a b have "field_name u = field_name v \<longrightarrow> u = v"
      by simp
    then have "assign u (assign v opt) = assign v (assign u opt)"
      by (rule assign_commute)
    with a b show ?thesis
      by (simp add: call_option_assignment)
  qed
qed

text \<open>Moving a setter to the end of the list makes its assignment the last one.\<close>

lemma call_options_last:
  assumes "\<forall>x\<in>set xs. valid_argument x" and "a \<in> set xs" and "assignment_of ds a = Some u"
  shows "mset (remove1 a xs @ [a]) = mset xs
     \<and> (\<exists>opt'. call_options ds (remove1 a xs @ [a]) opt = (None, assign u opt'))"
proof
  from assms(2) show "mset (remove1 a xs @ [a]) = mset xs"
    by simp
next
  let ?step = "\<lambda>x o'. snd (call_option ds x o')"
  have "\<forall>x\<in>set (remove1 a xs @ [a]). valid_argument x"
    using assms(1,2) by (auto dest: notin_set_remove1)
  then have "call_options ds (remove1 a xs @ [a]) opt =
      (None, fold ?step (remove1 a xs @ [a]) opt)"
    by (rule call_options_fold)
  also have "fold ?step (remove1 a xs @ [a]) opt = assign u (fold ?step (remove1 a xs) opt)"
    using assms(3) by (simp add: call_option_assignment)
  finally show "\<exists>opt'. call_options ds (remove1 a xs @ [a]) opt = (None, assign u opt')"
    by blast
qed

text \<open>
  C7, as amended. For every list of setters with valid (non-negative) duration and limit
  arguments in which any two setters that write the same field of the options write the
  same value into it, applying the setters in any permutation yields the same options
  snapshot and the same query parameters. A setter that writes nothing (an empty tag,
  a zero wait, \<open>WithHealthy(false)\<close>, ...) may stand anywhere. The condition is needed:
  when two setters of the list write different values into one field, some permutation
  of the list yields a different snapshot.
\<close>

theorem setters_order_independent_when_writes_agree:
  assumes "\<forall>x\<in>set xs. valid_argument x"
  shows "(writes_agree ds xs \<longrightarrow>
            (\<forall>ys. mset ys = mset xs \<longrightarrow>
               call_options ds ys opt = call_options ds xs opt
               \<and> targetQueryValues ds ys = targetQueryValues ds xs))
     \<and> (\<not> writes_agree ds xs \<longrightarrow>
            (\<exists>ys. mset ys = mset xs \<and> call_options ds ys opt \<noteq> call_options ds xs opt))"
proof (intro conjI impI allI)
  fix ys
  assume agree: "writes_agree ds xs" and perm: "mset ys = mset xs"
  let ?step = "\<lambda>x o'. snd (call_option ds x o')"
  from perm have sets: "set ys = set xs"
    by (rule mset_eq_setD)
  have folds: "fold ?step xs opt' = fold ?step ys opt'" for opt'
  proof (rule fold_permuted_eq [where P = "\<lambda>_. True"])
    show "mset xs = mset ys" using perm by simp
  next
    fix x y z
    assume "x \<in> set xs" and "y \<in> set xs"
    with agree have "case (assignment_of ds x, assignment_of ds y) of
        (Some u, Some v) \<Rightarrow> field_name u = field_name v \<longrightarrow> u = v
      | _ \<Rightarrow> True"
      unfolding writes_agree_def by blast
    then show "?step x (?step y z) = ?step y (?step x z)"
      by (rule call_option_commute_agree)
  qed simp_all
  have xs: "call_options ds xs opt' = (None, fold ?step xs opt')" for opt'
    using assms by (rule call_options_fold)
  have ys: "call_options ds ys opt' = (None, fold ?step ys opt')" for opt'
    using assms sets by (intro call_options_fold) simp
  show "call_options ds ys opt = call_options ds xs opt"
    by (simp add: xs ys folds)
  show "targetQueryValues ds ys = targetQueryValues ds xs"
    by (simp add: targetQueryValues_def xs ys folds)
next
  assume "\<not> writes_agree ds xs"
  then obtain a b u v where ab: "a \<in> set xs" "b \<in> set xs"
    and u: "assignment_of ds a = Some u" and v: "assignment_of ds b = Some v"
    and clash: "field_name u = field_name v" "u \<noteq> v"
    unfolding writes_agree_def by (auto split: option.splits)
  from call_options_last [OF assms ab(1) u, of opt]
  obtain oa where pa: "mset (remove1 a xs @ [a]) = mset xs"
    and ra: "call_options ds (remove1 a xs @ [a]) opt = (None, assign u oa)"
    by blast
  from call_options_last [OF assms ab(2) v, of opt]
  obtain ob where pb: "mset (remove1 b xs @ [b]) = mset xs"
    and rb: "call_options ds (remove1 b xs @ [b]) opt = (None, assign v ob)"
    by blast
  from clash have "assign u oa \<noteq> assign v ob"
    by (rule assign_conflict)
  with ra rb have "call_options ds (remove1 a xs @ [a]) opt \<noteq>
      call_options ds (remove1 b xs @ [b]) opt"
    by simp
  then have "call_options ds (remove1 a xs @ [a]) opt \<noteq> call_options ds xs opt
      \<or> call_options ds (remove1 b xs @ [b]) opt \<noteq> call_options ds xs opt"
    by metis
  with pa pb show "\<exists>ys. mset ys = mset xs \<and> call_options ds ys opt \<noteq> call_options ds xs opt"
    by blast
qed

theorem setters_order_independent_when_writes_agree_witness:
  "call_options whole_seconds
       [WithWait 0, WithTag ''blue'', WithHealthy False, WithLimit 5, WithWait (3 * Second),
        WithHealthy True, WithTag ''blue'']
       zero_options =
     call_options whole_seconds
       [WithHealthy True, WithHealthy False, WithTag ''blue'', WithLimit 5, WithTag ''blue'',
        WithWait (3 * Second), WithWait 0]
       zero_options
   \<and> targetQueryValues whole_seconds
       [WithWait 0, WithTag ''blue'', WithHealthy False, WithLimit 5, WithWait (3 * Second),
        WithHealthy True, WithTag ''blue''] =
     targetQueryValues whole_seconds
       [WithHealthy True, WithHealthy False, WithTag ''blue'', WithLimit 5, WithTag ''blue'',
        WithWait (3 * Second), WithWait 0]
   \<and> call_options whole_seconds
       [WithHealthy True, WithHealthy False, WithTag ''blue'', WithLimit 5, WithTag ''blue'',
        WithWait (3 * Second), WithWait 0]
       zero_options =
     (None, zero_options\<lparr>healthy := Some ''true'', tag := Some ''blue'', limit := Some 5,
                          wait := Some ''3s''\<rparr>)
   \<and> (\<exists>ys. mset ys = mset [WithTag ''a'', WithLimit 5, WithTag ''b'']
         \<and> call_options whole_seconds ys zero_options \<noteq>
           call_options whole_seconds [WithTag ''a'', WithLimit 5, WithTag ''b''] zero_options)"
proof -
  let ?xs = "[WithHealthy True, WithHealthy False, WithTag ''blue'', WithLimit 5,
      WithTag ''blue'', WithWait (3 * Second), WithWait 0]"
  let ?ys = "[WithWait 0, WithTag ''blue'', WithHealthy False, WithLimit 5,
      WithWait (3 * Second), WithHealthy True, WithTag ''blue'']"
  let ?zs = "[WithTag ''a'', WithLimit 5, WithTag ''b'']"
  have valid: "\<forall>x\<in>set ?xs. valid_argument x"
    by (simp add: Second_def)
  have agree: "writes_agree whole_seconds ?xs"
    by (simp add: writes_agree_def Second_def)
  have perm: "mset ?ys = mset ?xs"
    by simp
  have run: "call_options whole_seconds ?xs zero_options =
     (None, zero_options\<lparr>healthy := Some ''true'', tag := Some ''blue'', limit := Some 5,
                          wait := Some ''3s''\<rparr>)"
    by (simp add: zero_options_def whole_seconds_def Second_def Sprintf_d_def digits.simps)
  have valid': "\<forall>x\<in>set ?zs. valid_argument x"
    by simp
  have clash: "\<not> writes_agree whole_seconds ?zs"
    by (simp add: writes_agree_def)
  note same = setters_order_independent_when_writes_agree [OF valid, of whole_seconds
      zero_options, THEN conjunct1, THEN mp, OF agree, THEN spec, THEN mp, OF perm]
  note differ = setters_order_independent_when_writes_agree [OF valid', of whole_seconds
      zero_options, THEN conjunct2, THEN mp, OF clash]
  from same run differ show ?thesis
    by blast
qed

text \<open>
  The claim C7 as stated fails: two valid setters of the tag, in the two orders, give two
  different snapshots and two different sets of query parameters.
\<close>

theorem setters_order_counterexample:
  "valid_argument (WithTag ''a'') \<and> valid_argument (WithTag ''b'')
   \<and> mset [WithTag ''a'', WithTag ''b''] = mset [WithTag ''b'', WithTag ''a'']
   \<and> call_options whole_seconds [WithTag ''a'', WithTag ''b''] zero_options =
       (None, zero_options\<lparr>tag := Some ''b''\<rparr>)
   \<and> call_options whole_seconds [WithTag ''b'', WithTag ''a''] zero_options =
       (None, zero_options\<lparr>tag := Some ''a''\<rparr>)
   \<and> targetQueryValues whole_seconds [WithTag ''a'', WithTag ''b''] \<noteq>
     targetQueryValues whole_seconds [WithTag ''b'', WithTag ''a'']"
proof -
  have ab: "targetQueryValues whole_seconds [WithTag ''a'', WithTag ''b''] =
      Inr (query_of_options (zero_options\<lparr>tag := Some ''b''\<rparr>))"
    by (simp add: targetQueryValues_def)
  have ba: "targetQueryValues whole_seconds [WithTag ''b'', WithTag ''a''] =
      Inr (query_of_options (zero_options\<lparr>tag := Some ''a''\<rparr>))"
    by (simp add: targetQueryValues_def)
  have b: "query_of_options (zero_options\<lparr>tag := Some ''b''\<rparr>) ''tag'' = Some [''b'']"
    by (simp add: query_of_options_def zero_options_def Set_if_def)
  have a: "query_of_options (zero_options\<lparr>tag := Some ''a''\<rparr>) ''tag'' = Some [''a'']"
    by (simp add: query_of_options_def zero_options_def Set_if_def)
  have "query_of_options (zero_options\<lparr>tag := Some ''b''\<rparr>) \<noteq>
      query_of_options (zero_options\<lparr>tag := Some ''a''\<rparr>)"
  proof
    assume "query_of_options (zero_options\<lparr>tag := Some ''b''\<rparr>) =
      query_of_options (zero_options\<lparr>tag := Some ''a''\<rparr>)"
    then have "query_of_options (zero_options\<lparr>tag := Some ''b''\<rparr>) ''tag'' =
      query_of_options (zero_options\<lparr>tag := Some ''a''\<rparr>) ''tag''"
      by simp
    with a b show False by simp
  qed
  with ab ba show ?thesis by simp
qed

section \<open>The health loop\<close>

text \<open>
  A recovery whose retry task returns, with a new handle or with an error, leaves the
  loop waiting on \<open>range feedback\<close>: nothing has closed the channel.
\<close>

lemma CheckHealthAndReconnect_blocks:
  assumes "\<not> ctx_Done env w"
    and "ReportHealthyState env r [] instanceID [] w = (Some err, w1)"
    and "maxAttempts \<noteq> Some []"
    and "retryFunc env instanceID serviceCfg (case maxAttempts of None \<Rightarrow> 0 | Some ms \<Rightarrow> hd ms) w1 =
           Some ((newreg, rerr), sent, w2)"
  shows "CheckHealthAndReconnect env instanceID (Some r) serviceCfg maxAttempts logFeedback w =
     Some (Blocked,
       logFeedback @
         [\<lparr>Error = Some err, Message = ''trying new make registry and register''\<rparr>] @ sent,
       w2)"
  unfolding CheckHealthAndReconnect_def
  using assms
  by (subst CheckHealthAndReconnect_loop.simps) (simp add: Let_def make_chan_def)

text \<open>
  So no run of \<open>CheckHealthAndReconnect\<close> reaches the \<open>panic\<close> of line 216: the function
  never ends by panicking with an error.
\<close>

lemma CheckHealthAndReconnect_loop_no_fatal:
  assumes "CheckHealthAndReconnect_loop env instanceID reg serviceCfg maxAttempts feedback
      logFeedback w = Some y"
  shows "\<not> closed feedback \<longrightarrow> fst y \<noteq> Panicked (PanicError x)"
proof (rule CheckHealthAndReconnect_loop.raw_induct
    [where P = "\<lambda>env instanceID reg serviceCfg maxAttempts feedback logFeedback w y.
       \<not> closed feedback \<longrightarrow> fst y \<noteq> Panicked (PanicError x)",
     OF _ assms], goal_cases)
  case (1 loop env instanceID reg serviceCfg maxAttempts feedback logFeedback w y)
  show ?case
  proof
    assume "open": "\<not> closed feedback"
    show "fst y \<noteq> Panicked (PanicError x)"
    proof (cases "ctx_Done env w")
      case True
      with 1(2) show ?thesis by auto
    next
      case False
      note running = this
      show ?thesis
      proof (cases reg)
        case None
        with 1(2) running show ?thesis by auto
      next
        case (Some r)
        obtain e w1 where push: "ReportHealthyState env r [] instanceID [] w = (e, w1)"
          by (metis prod.exhaust)
        show ?thesis
        proof (cases e)
          case None
          with 1(2) running Some push
          have "loop env instanceID reg serviceCfg maxAttempts feedback logFeedback
              (Sleep env Second w1) = Some y"
            by simp
          from 1(1)[OF this] "open" show ?thesis by simp
        next
          case (Some err)
          with 1(2) running \<open>reg = Some r\<close> push "open" show ?thesis
            by (auto simp add: Let_def split: if_splits option.splits prod.splits)
        qed
      qed
    qed
  qed
qed

lemma CheckHealthAndReconnect_no_fatal:
  assumes "CheckHealthAndReconnect env instanceID reg serviceCfg maxAttempts logFeedback w =
      Some (e, logFeedback', w')"
  shows "e \<noteq> Panicked (PanicError x)"
  using CheckHealthAndReconnect_loop_no_fatal [of env instanceID reg serviceCfg maxAttempts
      make_chan logFeedback w "(e, logFeedback', w')" x] assms
  by (simp add: CheckHealthAndReconnect_def make_chan_def)


text \<open>
  The statement of line 216 is \<open>panic(err)\<close>, where \<open>err\<close> is the error of the liveness
  push, not \<open>rerr\<close>: on a channel already closed when the loop ranges over it, the panic
  would carry the error of the push.
\<close>

lemma line_216_panics_with_push_error:
  assumes "\<not> ctx_Done env w"
    and "ReportHealthyState env r [] instanceID [] w = (Some err, w1)"
    and "maxAttempts \<noteq> Some []"
    and "retryFunc env instanceID serviceCfg (case maxAttempts of None \<Rightarrow> 0 | Some ms \<Rightarrow> hd ms) w1 =
           Some ((newreg, Some rerr), sent, w2)"
    and "closed feedback"
  shows "CheckHealthAndReconnect_loop env instanceID (Some r) serviceCfg maxAttempts feedback
       logFeedback w =
     Some (Panicked (PanicError err),
       logFeedback @
         [\<lparr>Error = Some err, Message = ''trying new make registry and register''\<rparr>] @ sent,
       w2)"
  using assms
  by (subst CheckHealthAndReconnect_loop.simps) (simp add: Let_def)

text \<open>
  C4. The claim is that the supervisor aborts with the last error of the retry when the
  retry task returns an error. In the code, after a failed liveness push and a retry task
  that returns with an error, \<open>CheckHealthAndReconnect\<close> relays the events and then waits
  for ever on the channel: it neither panics nor polls again.
\<close>

theorem exhausted_retry_blocks_health_loop:
  assumes "\<not> ctx_Done env w"
    and "ReportHealthyState env r [] instanceID [] w = (Some err, w1)"
    and "maxAttempts \<noteq> Some []"
    and "retryFunc env instanceID serviceCfg (case maxAttempts of None \<Rightarrow> 0 | Some ms \<Rightarrow> hd ms) w1 =
           Some ((newreg, Some rerr), sent, w2)"
  shows "CheckHealthAndReconnect env instanceID (Some r) serviceCfg maxAttempts logFeedback w =
     Some (Blocked,
       logFeedback @
         [\<lparr>Error = Some err, Message = ''trying new make registry and register''\<rparr>] @ sent,
       w2)"
  using assms by (rule CheckHealthAndReconnect_blocks)

lemma test_env_push_fails:
  "ReportHealthyState (test_env b) r [] instanceID [] w =
     (Some (BackendError ''update ttl refused''), Suc w)"
  by (simp add: ReportHealthyState_def test_env_def)

lemma retryFunc_test_env_exhausted:
  "retryFunc (test_env False) ''instance-1'' (Some test_service) 1 w =
     Some ((None, Some (BackendError ''register refused'')),
       [\<lparr>Error = None, Message = ''all attempts used''\<rparr>], Suc w)"
proof -
  have call: "MakeRegistryAndRegisterService (test_env False) ''instance-1''
      (Some test_service) None w = ((None, Some (BackendError ''register refused'')), Suc w)"
    by (simp add: MakeRegistryAndRegisterService_def NewRegistry_def Let_def Register_def
        test_env_def)
  have "retry_loop (MakeRegistryAndRegisterService (test_env False) ''instance-1''
            (Some test_service) None)
          (select_wait (test_env False)) (Duration_String (test_env False)) 1 1 [] w =
        Some ((None, Some (BackendError ''register refused'')),
          [] @ [\<lparr>Error = None, Message = ''all attempts used''\<rparr>], Suc w)"
    using call by (rule retry_loop_exhausted) simp_all
  then show ?thesis
    by (simp add: retryFunc_def retry_def)
qed

theorem exhausted_retry_blocks_health_loop_witness:
  "retryFunc (test_env False) ''instance-1'' (Some test_service) 1 1 =
     Some ((None, Some (BackendError ''register refused'')),
       [\<lparr>Error = None, Message = ''all attempts used''\<rparr>], 2)
   \<and> CheckHealthAndReconnect (test_env False) ''instance-1''
       (Some \<lparr>client = (), config = \<lparr>Address = ''10.0.0.1:8500'', HttpAuth = None\<rparr>\<rparr>)
       (Some test_service) (Some [1]) [] 0 =
     Some (Blocked,
       [\<lparr>Error = Some (BackendError ''update ttl refused''),
         Message = ''trying new make registry and register''\<rparr>,
        \<lparr>Error = None, Message = ''all attempts used''\<rparr>], 2)"
proof -
  have running: "\<not> ctx_Done (test_env False) 0"
    by (simp add: test_env_def)
  have push: "ReportHealthyState (test_env False)
      \<lparr>client = (), config = \<lparr>Address = ''10.0.0.1:8500'', HttpAuth = None\<rparr>\<rparr>
      [] ''instance-1'' [] 0 = (Some (BackendError ''update ttl refused''), 1)"
    by (simp add: test_env_push_fails)
  have given: "Some [1 :: go_int] \<noteq> Some []"
    by simp
  have task: "retryFunc (test_env False) ''instance-1'' (Some test_service)
      (case Some [1] of None \<Rightarrow> 0 | Some ms \<Rightarrow> hd ms) 1 =
     Some ((None, Some (BackendError ''register refused'')),
       [\<lparr>Error = None, Message = ''all attempts used''\<rparr>], 2)"
    using retryFunc_test_env_exhausted [of 1] by simp
  show ?thesis
    using exhausted_retry_blocks_health_loop [OF running push given task, of "[]"] task
    by simp
qed

text \<open>
  C5. The claim is that the channel is closed when the retry task completes and that the
  supervisor then swaps in the new handle. In the code, after a failed liveness push and
  a retry task that returns a new handle, \<open>CheckHealthAndReconnect\<close> relays the events and
  then waits for ever on the channel: the handle is not swapped and no later tick pushes.
\<close>

theorem recovered_retry_blocks_health_loop:
  assumes "\<not> ctx_Done env w"
    and "ReportHealthyState env r [] instanceID [] w = (Some err, w1)"
    and "maxAttempts \<noteq> Some []"
    and "retryFunc env instanceID serviceCfg (case maxAttempts of None \<Rightarrow> 0 | Some ms \<Rightarrow> hd ms) w1 =
           Some ((Some newreg, None), sent, w2)"
  shows "CheckHealthAndReconnect env instanceID (Some r) serviceCfg maxAttempts logFeedback w =
     Some (Blocked,
       logFeedback @
         [\<lparr>Error = Some err, Message = ''trying new make registry and register''\<rparr>] @ sent,
       w2)"
  using assms by (rule CheckHealthAndReconnect_blocks)

theorem recovered_retry_blocks_health_loop_witness:
  "retryFunc (test_env True) ''instance-1'' (Some test_service) 0 1 =
     Some ((Some \<lparr>client = (), config = \<lparr>Address = ''localhost:8500'',
         HttpAuth = Some \<lparr>Username = [], Password = []\<rparr>\<rparr>\<rparr>, None),
       [\<lparr>Error = None, Message = ''retry attempt 1 successful''\<rparr>], 2)
   \<and> CheckHealthAndReconnect (test_env True) ''instance-1''
       (Some \<lparr>client = (), config = \<lparr>Address = ''10.0.0.1:8500'', HttpAuth = None\<rparr>\<rparr>)
       (Some test_service) None [] 0 =
     Some (Blocked,
       [\<lparr>Error = Some (BackendError ''update ttl refused''),
         Message = ''trying new make registry and register''\<rparr>,
        \<lparr>Error = None, Message = ''retry attempt 1 successful''\<rparr>], 2)"
proof -
  have running: "\<not> ctx_Done (test_env True) 0"
    by (simp add: test_env_def)
  have push: "ReportHealthyState (test_env True)
      \<lparr>client = (), config = \<lparr>Address = ''10.0.0.1:8500'', HttpAuth = None\<rparr>\<rparr>
      [] ''instance-1'' [] 0 = (Some (BackendError ''update ttl refused''), 1)"
    by (simp add: test_env_push_fails)
  have given: "(None :: go_int list option) \<noteq> Some []"
    by simp
  have task: "retryFunc (test_env True) ''instance-1'' (Some test_service)
      (case None of None \<Rightarrow> 0 | Some ms \<Rightarrow> hd ms) 1 =
     Some ((Some \<lparr>client = (), config = \<lparr>Address = ''localhost:8500'',
         HttpAuth = Some \<lparr>Username = [], Password = []\<rparr>\<rparr>\<rparr>, None),
       [\<lparr>Error = None, Message = ''retry attempt 1 successful''\<rparr>], 2)"
    using retryFunc_test_env [of 0 1] by simp
  show ?thesis
    using recovered_retry_blocks_health_loop [OF running push given task, of "[]"] task
    by simp
qed

end
